theory Spec2Isabelle
  imports Complex_Main "HOL-Library.Sublist" "HOL-Library.Multiset"
begin

section \<open>Collision records\<close>

text \<open>
  A row of \<^verbatim>\<open>clean_collision_data.csv\<close> as \<^verbatim>\<open>feature_engineering.py\<close> reads it: the
  coordinates, the combined timestamp, the eight injury and fatality counts, and the first
  contributing-factor and vehicle-type codes. Counts are Python integers, coordinates are
  modelled as real numbers, and the timestamp is the parsed value (calendar fields).
\<close>

record timestamp =
  ts_year :: int
  ts_month :: int
  ts_day :: int
  ts_hour :: int
  ts_minute :: int

record collision =
  latitude :: real
  longitude :: real
  crash_datetime :: timestamp
  number_of_persons_injured :: int
  number_of_persons_killed :: int
  number_of_pedestrians_injured :: int
  number_of_pedestrians_killed :: int
  number_of_cyclist_injured :: int
  number_of_cyclist_killed :: int
  number_of_motorist_injured :: int
  number_of_motorist_killed :: int
  contributing_factor_vehicle_1 :: string
  vehicle_type_code_1 :: string

datatype error = ValueError | KeyError | IndexError | InvalidParameterError

section \<open>Severity score and category\<close>

text \<open>
  The row-wise sums of the four killed columns and of the four injured columns,
  then \<^verbatim>\<open>df['total_deaths'] * 5 + df['total_injuries']\<close>. The count columns are
  64-bit signed integer columns: every addition and the multiplication wrap around modulo
  \<open>2^64\<close> without an error.
\<close>

definition wrap64 :: "int \<Rightarrow> int" where
  "wrap64 x = (x + 2 ^ 63) mod 2 ^ 64 - 2 ^ 63"

definition sum64 :: "int list \<Rightarrow> int" where
  "sum64 xs = foldl (\<lambda>acc x. wrap64 (acc + x)) 0 xs"

definition total_deaths :: "collision \<Rightarrow> int" where
  "total_deaths r =
     sum64 [number_of_persons_killed r, number_of_pedestrians_killed r,
            number_of_cyclist_killed r, number_of_motorist_killed r]"

definition total_injuries :: "collision \<Rightarrow> int" where
  "total_injuries r =
     sum64 [number_of_persons_injured r, number_of_pedestrians_injured r,
            number_of_cyclist_injured r, number_of_motorist_injured r]"

definition severity_score :: "collision \<Rightarrow> int" where
  "severity_score r = wrap64 (wrap64 (total_deaths r * 5) + total_injuries r)"

fun aggregate_severity :: "int \<Rightarrow> string" where
  "aggregate_severity score =
     (if score \<le> 4 then ''Low''
      else if score \<le> 10 then ''Medium''
      else ''High'')"

definition severity_category :: "collision \<Rightarrow> string" where
  "severity_category r = aggregate_severity (severity_score r)"

text \<open>A row with every count zero, used to write concrete rows.\<close>

definition blank_row :: collision where
  "blank_row =
     \<lparr> latitude = 0, longitude = 0,
       crash_datetime = \<lparr> ts_year = 2020, ts_month = 3, ts_day = 15, ts_hour = 7, ts_minute = 30 \<rparr>,
       number_of_persons_injured = 0, number_of_persons_killed = 0,
       number_of_pedestrians_injured = 0, number_of_pedestrians_killed = 0,
       number_of_cyclist_injured = 0, number_of_cyclist_killed = 0,
       number_of_motorist_injured = 0, number_of_motorist_killed = 0,
       contributing_factor_vehicle_1 = ''Unspecified'',
       vehicle_type_code_1 = ''Sedan'' \<rparr>"

section \<open>Category remapping\<close>

text \<open>
  The two dictionaries of \<^verbatim>\<open>feature_engineering.py\<close>, in source order.
  \<^verbatim>\<open>Series.map(dict)\<close> gives a missing value (NaN, here \<open>None\<close>) for a key the
  dictionary lacks; \<^verbatim>\<open>fillna\<close> replaces a missing value. \<^verbatim>\<open>str.lower\<close> is modelled on
  the ASCII letters.
\<close>

definition factor_mapping :: "(string \<times> string) list" where
  "factor_mapping =
     [(''Driver Inattention/Distraction'', ''Human Error''),
      (''Driver Inexperience'', ''Human Error''),
      (''Following Too Closely'', ''Human Error''),
      (''Unsafe Speed'', ''Human Error''),
      (''Failure to Yield Right-of-Way'', ''Human Error''),
      (''Aggressive Driving/Road Rage'', ''Human Error''),
      (''Backing Unsafely'', ''Human Error''),
      (''Fell Asleep'', ''Human Error''),
      (''Fatigued/Drowsy'', ''Human Error''),
      (''Lost Consciousness'', ''Human Error''),
      (''Alcohol Involvement'', ''Human Error''),
      (''Drugs (Illegal)'', ''Human Error''),
      (''Prescription Medication'', ''Human Error''),
      (''Pavement Slippery'', ''Environmental Factors''),
      (''Obstruction/Debris'', ''Environmental Factors''),
      (''View Obstructed/Limited'', ''Environmental Factors''),
      (''Glare'', ''Environmental Factors''),
      (''Outside Car Distraction'', ''Environmental Factors''),
      (''Animals Action'', ''Environmental Factors''),
      (''Pavement Defective'', ''Environmental Factors''),
      (''Brakes Defective'', ''Mechanical/Vehicle Issues''),
      (''Steering Failure'', ''Mechanical/Vehicle Issues''),
      (''Tire Failure/Inadequate'', ''Mechanical/Vehicle Issues''),
      (''Accelerator Defective'', ''Mechanical/Vehicle Issues''),
      (''Headlights Defective'', ''Mechanical/Vehicle Issues''),
      (''Oversized Vehicle'', ''Mechanical/Vehicle Issues''),
      (''Other Lighting Defects'', ''Mechanical/Vehicle Issues''),
      (''Windshield Inadequate'', ''Mechanical/Vehicle Issues''),
      (''Tow Hitch Defective'', ''Mechanical/Vehicle Issues''),
      (''Vehicle Vandalism'', ''Mechanical/Vehicle Issues''),
      (''Physical Disability'', ''Mechanical/Vehicle Issues''),
      (''Traffic Control Disregarded'', ''Traffic/Regulatory Issues''),
      (''Traffic Control Device Improper/Non-Working'', ''Traffic/Regulatory Issues''),
      (''Lane Marking Improper/Inadequate'', ''Traffic/Regulatory Issues''),
      (''Pedestrian/Bicyclist/Other Pedestrian Error/Confusion'', ''Pedestrian/Cyclist Issues''),
      (''Unspecified'', ''Unknown/Other''),
      (''Unknown'', ''Unknown/Other''),
      (''Other Vehicular'', ''Unknown/Other''),
      (''Other Electronic Device'', ''Unknown/Other''),
      (''Cell Phone (hands-free)'', ''Distracted/Occupied''),
      (''Cell Phone (hand-held)'', ''Distracted/Occupied''),
      (''Using On Board Navigation Device'', ''Distracted/Occupied''),
      (''Eating or Drinking'', ''Distracted/Occupied''),
      (''Listening/Using Headphones'', ''Distracted/Occupied''),
      (''Texting'', ''Distracted/Occupied'')]"

definition vehicle_mapping :: "(string \<times> string) list" where
  "vehicle_mapping =
     [(''sedan'', ''Passenger Vehicle''),
      (''station wagon/sport utility vehicle'', ''Passenger Vehicle''),
      (''passenger vehicle'', ''Passenger Vehicle''),
      (''sport utility / station wagon'', ''Passenger Vehicle''),
      (''taxi'', ''Taxi''),
      (''pick-up truck'', ''Truck''),
      (''4 dr sedan'', ''Passenger Vehicle''),
      (''box truck'', ''Truck''),
      (''van'', ''Van''),
      (''bus'', ''Bus''),
      (''bike'', ''Bike'')]"

definition lower_char :: "char \<Rightarrow> char" where
  "lower_char c =
     (case map_of (zip ''ABCDEFGHIJKLMNOPQRSTUVWXYZ'' ''abcdefghijklmnopqrstuvwxyz'') c of
        Some l \<Rightarrow> l | None \<Rightarrow> c)"

definition lower :: "string \<Rightarrow> string" where
  "lower s = map lower_char s"

definition series_map :: "('k \<times> 'v) list \<Rightarrow> 'k \<Rightarrow> 'v option" where
  "series_map mapping x = map_of mapping x"

definition fillna :: "'v \<Rightarrow> 'v option \<Rightarrow> 'v" where
  "fillna d x = (case x of None \<Rightarrow> d | Some v \<Rightarrow> v)"

definition contributing_factor_category :: "string \<Rightarrow> string option" where
  "contributing_factor_category f = series_map factor_mapping f"

definition vehicle_category :: "string \<Rightarrow> string" where
  "vehicle_category v = fillna ''Unknown'' (series_map vehicle_mapping (lower v))"

section \<open>Time-based features\<close>

text \<open>
  \<^verbatim>\<open>pd.to_datetime(df['crash_datetime'])\<close> with the accessors \<^verbatim>\<open>dt.day_name()\<close>,
  \<^verbatim>\<open>dt.hour\<close> and \<^verbatim>\<open>dt.month\<close>, and \<^verbatim>\<open>pd.cut(..., right=False)\<close>. The weekday is
  computed from the day number of the proleptic Gregorian calendar (day 1 is the first of
  January of year 1, a Monday). A value outside every bin of \<^verbatim>\<open>pd.cut\<close> is missing.
\<close>

definition is_leap :: "int \<Rightarrow> bool" where
  "is_leap y = (y mod 4 = 0 \<and> (y mod 100 \<noteq> 0 \<or> y mod 400 = 0))"

definition days_in_month :: "int \<Rightarrow> int \<Rightarrow> int" where
  "days_in_month y m =
     (if m = 2 then (if is_leap y then 29 else 28)
      else if m \<in> {4, 6, 9, 11} then 30 else 31)"

definition days_before_year :: "int \<Rightarrow> int" where
  "days_before_year y = (y - 1) * 365 + (y - 1) div 4 - (y - 1) div 100 + (y - 1) div 400"

definition days_before_month :: "int \<Rightarrow> int \<Rightarrow> int" where
  "days_before_month y m = sum_list (map (days_in_month y) [1..m - 1])"

definition toordinal :: "timestamp \<Rightarrow> int" where
  "toordinal t = days_before_year (ts_year t) + days_before_month (ts_year t) (ts_month t) + ts_day t"

definition weekday :: "timestamp \<Rightarrow> int" where
  "weekday t = (toordinal t + 6) mod 7"

definition day_names :: "string list" where
  "day_names = [''Monday'', ''Tuesday'', ''Wednesday'', ''Thursday'', ''Friday'', ''Saturday'', ''Sunday'']"

definition day_name :: "timestamp \<Rightarrow> string" where
  "day_name t = day_names ! nat (weekday t)"

definition valid_timestamp :: "timestamp \<Rightarrow> bool" where
  "valid_timestamp t =
     (1 \<le> ts_year t \<and> 1 \<le> ts_month t \<and> ts_month t \<le> 12
      \<and> 1 \<le> ts_day t \<and> ts_day t \<le> days_in_month (ts_year t) (ts_month t)
      \<and> 0 \<le> ts_hour t \<and> ts_hour t < 24 \<and> 0 \<le> ts_minute t \<and> ts_minute t < 60)"

fun cut_right_open :: "int list \<Rightarrow> string list \<Rightarrow> int \<Rightarrow> string option" where
  "cut_right_open (lo # hi # bins) (l # labels) x =
     (if lo \<le> x \<and> x < hi then Some l else cut_right_open (hi # bins) labels x)"
| "cut_right_open _ _ _ = None"

definition hour_of_day :: "timestamp \<Rightarrow> int" where
  "hour_of_day t = ts_hour t"

definition month :: "timestamp \<Rightarrow> int" where
  "month t = ts_month t"

definition day_of_week :: "timestamp \<Rightarrow> string" where
  "day_of_week t = day_name t"

definition time_of_day :: "timestamp \<Rightarrow> string option" where
  "time_of_day t =
     cut_right_open [0, 6, 12, 18, 24] [''Night'', ''Morning'', ''Afternoon'', ''Evening'']
       (hour_of_day t)"

definition example_ts :: timestamp where
  "example_ts = \<lparr> ts_year = 2020, ts_month = 3, ts_day = 15, ts_hour = 7, ts_minute = 30 \<rparr>"

text \<open>
  The date that follows a date in the Gregorian calendar, used to state how the weekday
  moves from one day to the next.
\<close>

definition next_day :: "timestamp \<Rightarrow> timestamp" where
  "next_day t =
     (if ts_day t < days_in_month (ts_year t) (ts_month t) then t\<lparr>ts_day := ts_day t + 1\<rparr>
      else if ts_month t < 12 then t\<lparr>ts_month := ts_month t + 1, ts_day := 1\<rparr>
      else t\<lparr>ts_year := ts_year t + 1, ts_month := 1, ts_day := 1\<rparr>)"

section \<open>Borough assignment\<close>

text \<open>
  \<^verbatim>\<open>borough_ranges\<close> and \<^verbatim>\<open>get_borough\<close> of \<^verbatim>\<open>database_integration.py\<close>. The dictionary
  is iterated in insertion order, and the first box that contains the point is returned.
\<close>

record bounds =
  lat_min :: real
  lat_max :: real
  lon_min :: real
  lon_max :: real

definition borough_ranges :: "(string \<times> bounds) list" where
  "borough_ranges =
     [(''Manhattan'', \<lparr>lat_min = 40.700, lat_max = 40.882, lon_min = - 74.019, lon_max = - 73.907\<rparr>),
      (''Brooklyn'', \<lparr>lat_min = 40.570, lat_max = 40.739, lon_min = - 74.041, lon_max = - 73.855\<rparr>),
      (''Queens'', \<lparr>lat_min = 40.541, lat_max = 40.800, lon_min = - 73.962, lon_max = - 73.700\<rparr>),
      (''Bronx'', \<lparr>lat_min = 40.785, lat_max = 40.910, lon_min = - 73.933, lon_max = - 73.765\<rparr>),
      (''Staten Island'', \<lparr>lat_min = 40.477, lat_max = 40.648, lon_min = - 74.255, lon_max = - 74.051\<rparr>)]"

definition in_bounds :: "bounds \<Rightarrow> real \<Rightarrow> real \<Rightarrow> bool" where
  "in_bounds b lat lon =
     (lat_min b \<le> lat \<and> lat \<le> lat_max b \<and> lon_min b \<le> lon \<and> lon \<le> lon_max b)"

fun get_borough_loop :: "(string \<times> bounds) list \<Rightarrow> real \<Rightarrow> real \<Rightarrow> string" where
  "get_borough_loop [] lat lon = ''Unknown''"
| "get_borough_loop ((borough, b) # rest) lat lon =
     (if in_bounds b lat lon then borough else get_borough_loop rest lat lon)"

definition get_borough :: "real \<Rightarrow> real \<Rightarrow> string" where
  "get_borough lat lon = get_borough_loop borough_ranges lat lon"


section \<open>Collision clusters in chunks\<close>

text \<open>
  \<^verbatim>\<open>cluster_in_chunks\<close> of \<^verbatim>\<open>feature_engineering.py\<close>. The clustering itself,
  \<^verbatim>\<open>DBSCAN(eps, min_samples, metric='haversine').fit(X).labels_\<close>, belongs to scikit-learn
  and is a parameter \<open>fit\<close> of the model; \<^verbatim>\<open>np.radians\<close> converts both coordinates
  of a point. \<^verbatim>\<open>range(0, n, chunk_size)\<close> raises for a step of zero and is empty for a
  negative step.
\<close>

definition radians :: "real \<times> real \<Rightarrow> real \<times> real" where
  "radians p = (fst p * pi / 180, snd p * pi / 180)"

definition iloc :: "'a list \<Rightarrow> nat \<Rightarrow> nat \<Rightarrow> 'a list" where
  "iloc dataframe start end = take (end - start) (drop start dataframe)"

type_synonym dbscan = "real \<Rightarrow> int \<Rightarrow> (real \<times> real) list \<Rightarrow> int list"

definition cluster_chunk :: "dbscan \<Rightarrow> real \<Rightarrow> int \<Rightarrow> collision list \<Rightarrow> int list" where
  "cluster_chunk fit eps min_samples chunk =
     (let coordinates = map (\<lambda>r. (latitude r, longitude r)) chunk
      in fit eps min_samples (map radians coordinates))"

function chunk_loop ::
  "dbscan \<Rightarrow> collision list \<Rightarrow> nat \<Rightarrow> real \<Rightarrow> int \<Rightarrow> nat \<Rightarrow> int list \<Rightarrow> int list" where
  "chunk_loop fit dataframe chunk_size eps min_samples start total_clusters =
     (if chunk_size = 0 \<or> length dataframe \<le> start then total_clusters
      else (let end = start + chunk_size;
                chunk = iloc dataframe start end
            in chunk_loop fit dataframe chunk_size eps min_samples end
                 (total_clusters @ cluster_chunk fit eps min_samples chunk)))"
  by pat_completeness auto
termination
  by (relation "measure (\<lambda>(fit, dataframe, chunk_size, eps, min_samples, start, total_clusters).
        length dataframe - start)") auto

declare chunk_loop.simps [simp del]

definition cluster_in_chunks ::
  "dbscan \<Rightarrow> collision list \<Rightarrow> int \<Rightarrow> real \<Rightarrow> int \<Rightarrow> error + int list" where
  "cluster_in_chunks fit dataframe chunk_size eps min_samples =
     (if chunk_size = 0 then Inl ValueError
      else if chunk_size < 0 then Inr []
      else Inr (chunk_loop fit dataframe (nat chunk_size) eps min_samples 0 []))"

definition collision_cluster :: "dbscan \<Rightarrow> collision list \<Rightarrow> error + int list" where
  "collision_cluster fit df = cluster_in_chunks fit df 10000 0.01 10"

text \<open>
  The partition the specification describes: fixed-size contiguous chunks of the record
  sequence, the last one possibly shorter.
\<close>

function contiguous_chunks :: "nat \<Rightarrow> 'a list \<Rightarrow> 'a list list" where
  "contiguous_chunks n xs =
     (if n = 0 \<or> xs = [] then [] else take n xs # contiguous_chunks n (drop n xs))"
  by pat_completeness auto
termination
  by (relation "measure (\<lambda>(n, xs). length xs)") auto

declare contiguous_chunks.simps [simp del]

text \<open>
  A stand-in for the clustering, used to run the loop on concrete rows: it labels every
  point of a chunk with its position in the chunk.
\<close>

definition index_labels :: dbscan where
  "index_labels eps min_samples points = map int [0..<length points]"

definition five_rows :: "collision list" where
  "five_rows =
     [blank_row\<lparr>latitude := 40.71\<rparr>, blank_row\<lparr>latitude := 40.72\<rparr>,
      blank_row\<lparr>latitude := 40.73\<rparr>, blank_row\<lparr>latitude := 40.74\<rparr>,
      blank_row\<lparr>latitude := 40.75\<rparr>]"

text \<open>
  A second stand-in, which reads the coordinates and the radius it is handed: a point whose
  first coordinate is below \<open>100 * eps\<close> gets the position of the first point of its chunk
  with the same coordinates, and every other point is noise. With it come five rows, three of
  them at the same place.
\<close>

definition same_place_labels :: dbscan where
  "same_place_labels eps min_samples points =
     map (\<lambda>p. if fst p < 100 * eps then int (length (takeWhile (\<lambda>q. q \<noteq> p) points)) else - 1)
       points"

definition place_rows :: "collision list" where
  "place_rows =
     [blank_row\<lparr>latitude := 45, longitude := - 90\<rparr>,
      blank_row\<lparr>latitude := 45, longitude := - 90\<rparr>,
      blank_row\<lparr>latitude := 90, longitude := - 90\<rparr>,
      blank_row\<lparr>latitude := 45, longitude := - 90\<rparr>,
      blank_row\<lparr>latitude := 30, longitude := - 90\<rparr>]"

section \<open>Class imbalance\<close>

text \<open>
  Step 8 of \<^verbatim>\<open>feature_engineering.py\<close>. \<^verbatim>\<open>sklearn.utils.resample\<close> first validates
  its parameters and raises \<^verbatim>\<open>InvalidParameterError\<close> when \<^verbatim>\<open>n_samples\<close> is below 1; with
  \<^verbatim>\<open>replace=False\<close> it raises \<^verbatim>\<open>ValueError\<close> when asked for more rows than the array has;
  otherwise it shuffles the row positions with the seeded generator and returns the rows at
  the first \<^verbatim>\<open>n_samples\<close> shuffled positions. The shuffle that the seed 42 produces for an
  array of a given length is a parameter of the model.
\<close>

definition resample :: "(nat \<Rightarrow> nat list) \<Rightarrow> 'a list \<Rightarrow> nat \<Rightarrow> error + 'a list" where
  "resample shuffle arr n_samples =
     (if n_samples < 1 then Inl InvalidParameterError
      else if length arr < n_samples then Inl ValueError
      else Inr (map (\<lambda>i. arr ! i) (take n_samples (shuffle (length arr)))))"

definition df_balanced :: "(nat \<Rightarrow> nat list) \<Rightarrow> collision list \<Rightarrow> error + collision list" where
  "df_balanced shuffle df =
     (let majority_class = filter (\<lambda>r. severity_category r = ''Low'') df;
          minority_classes = filter (\<lambda>r. severity_category r \<noteq> ''Low'') df
      in case resample shuffle majority_class (length minority_classes) of
           Inl e \<Rightarrow> Inl e
         | Inr majority_downsampled \<Rightarrow> Inr (majority_downsampled @ minority_classes))"

text \<open>A stand-in for the seeded shuffle, used to run the step on concrete rows.\<close>

definition reversed_order :: "nat \<Rightarrow> nat list" where
  "reversed_order n = rev [0..<n]"

definition row_medium :: collision where
  "row_medium = blank_row\<lparr>number_of_motorist_injured := 5\<rparr>"

definition row_high :: collision where
  "row_high = blank_row\<lparr>number_of_persons_killed := 3\<rparr>"

section \<open>Location grid and crash rate\<close>

text \<open>
  Steps 5 and 6 of \<^verbatim>\<open>feature_engineering.py\<close>. A float value is modelled by its sign and
  its magnitude, a real number, so that negative zero is a value of its own; a real number is
  read as the float of its sign and magnitude, zero as positive zero. \<^verbatim>\<open>Series.round(3)\<close>
  scales by 1000, rounds to the nearest integer with ties to the even one, and scales back,
  keeping the sign of its argument also when the result is zero. \<^verbatim>\<open>astype(str)\<close> prints
  a float as it is: the sign, the integer part, a point and the decimals without trailing
  zeros (at least one digit). The printing follows Python's positional notation, and the
  decimals are cut after 17 digits.
\<close>

record float64 =
  is_negative :: bool
  magnitude :: real

definition float64_of :: "real \<Rightarrow> float64" where
  "float64_of x = \<lparr>is_negative = x < 0, magnitude = \<bar>x\<bar>\<rparr>"

definition float64_value :: "float64 \<Rightarrow> real" where
  "float64_value f = (if is_negative f then - magnitude f else magnitude f)"

definition rint :: "real \<Rightarrow> int" where
  "rint x =
     (let f = \<lfloor>x\<rfloor>; d = x - of_int f
      in if d < 1 / 2 then f else if 1 / 2 < d then f + 1 else if even f then f else f + 1)"

definition round3 :: "real \<Rightarrow> float64" where
  "round3 x = \<lparr>is_negative = x < 0, magnitude = \<bar>of_int (rint (x * 1000))\<bar> / 1000\<rparr>"

definition digit_char :: "nat \<Rightarrow> char" where
  "digit_char d = ''0123456789'' ! d"

function nat_str :: "nat \<Rightarrow> string" where
  "nat_str n = (if n < 10 then [digit_char n] else nat_str (n div 10) @ [digit_char (n mod 10)])"
  by pat_completeness auto
termination
  by (relation "measure (\<lambda>n. n)") auto

declare nat_str.simps [simp del]

function frac_digits :: "nat \<Rightarrow> real \<Rightarrow> string" where
  "frac_digits fuel f =
     (if fuel = 0 \<or> f = 0 then []
      else digit_char (nat \<lfloor>f * 10\<rfloor>) # frac_digits (fuel - 1) (f * 10 - of_int \<lfloor>f * 10\<rfloor>))"
  by pat_completeness auto
termination
  by (relation "measure (\<lambda>(fuel, f). fuel)") auto

declare frac_digits.simps [simp del]

definition float64_str :: "float64 \<Rightarrow> string" where
  "float64_str f =
     (let m = magnitude f; whole = \<lfloor>m\<rfloor>; ds = frac_digits 17 (m - of_int whole)
      in (if is_negative f then ''-'' else [])
         @ nat_str (nat whole) @ ''.'' @ (if ds = [] then ''0'' else ds))"

definition float_str :: "real \<Rightarrow> string" where
  "float_str x = float64_str (float64_of x)"

definition lat_rounded :: "collision \<Rightarrow> float64" where
  "lat_rounded r = round3 (latitude r)"

definition lon_rounded :: "collision \<Rightarrow> float64" where
  "lon_rounded r = round3 (longitude r)"

definition location_grid :: "collision \<Rightarrow> string" where
  "location_grid r = float64_str (lat_rounded r) @ '', '' @ float64_str (lon_rounded r)"

text \<open>
  \<^verbatim>\<open>df.groupby(key)[column]\<close> collects the column's values by key in one pass over the
  rows; \<^verbatim>\<open>transform('mean')\<close> gives every row the mean of its group's values.
\<close>

fun add_to_group :: "'k \<Rightarrow> 'v \<Rightarrow> ('k \<times> 'v list) list \<Rightarrow> ('k \<times> 'v list) list" where
  "add_to_group k v [] = [(k, [v])]"
| "add_to_group k v ((k', vs) # groups) =
     (if k = k' then (k', vs @ [v]) # groups else (k', vs) # add_to_group k v groups)"

definition groupby :: "('r \<Rightarrow> 'k) \<Rightarrow> ('r \<Rightarrow> 'v) \<Rightarrow> 'r list \<Rightarrow> ('k \<times> 'v list) list" where
  "groupby key column df = foldl (\<lambda>groups r. add_to_group (key r) (column r) groups) [] df"

definition mean :: "int list \<Rightarrow> real option" where
  "mean vs = (if vs = [] then None else Some (of_int (sum_list vs) / of_nat (length vs)))"

definition transform_mean :: "('r \<Rightarrow> 'k) \<Rightarrow> ('r \<Rightarrow> int) \<Rightarrow> 'r list \<Rightarrow> real option list" where
  "transform_mean key column df =
     (let groups = groupby key column df
      in map (\<lambda>r. case map_of groups (key r) of None \<Rightarrow> None | Some vs \<Rightarrow> mean vs) df)"

definition crash_rate :: "collision list \<Rightarrow> real option list" where
  "crash_rate df = transform_mean location_grid severity_score df"

definition grid_rows :: "collision list" where
  "grid_rows =
     [blank_row\<lparr>latitude := 40.7121, longitude := - 74.0059, number_of_pedestrians_killed := 1,
                number_of_motorist_injured := 2\<rparr>,
      blank_row\<lparr>latitude := 40.8, longitude := - 73.95, number_of_persons_injured := 3\<rparr>,
      blank_row\<lparr>latitude := 40.71249, longitude := - 74.0064, number_of_cyclist_injured := 2\<rparr>]"

section \<open>Feature alignment\<close>

text \<open>
  \<^verbatim>\<open>create_aligned_input\<close> of \<^verbatim>\<open>app.py\<close>. The input is the single row after
  \<^verbatim>\<open>input_data.astype(str)\<close>: its columns with their values as strings. Python's
  \<^verbatim>\<open>float\<close> is the parameter \<open>to_float\<close>, with \<open>None\<close> where it raises
  \<^verbatim>\<open>ValueError\<close>. Only \<^verbatim>\<open>KeyError\<close> is caught in the two passes; every other
  exception leaves the function. \<^verbatim>\<open>str.split\<close> is called with the separator
  \<^verbatim>\<open>"__"\<close> only (Python rejects an empty separator).
\<close>

function split_from :: "string \<Rightarrow> string \<Rightarrow> string \<Rightarrow> string list" where
  "split_from sep piece s =
     (if s = [] then [piece]
      else if sep \<noteq> [] \<and> prefix sep s then piece # split_from sep [] (drop (length sep) s)
      else split_from sep (piece @ [hd s]) (tl s))"
  by pat_completeness auto
termination
  by (relation "measure (\<lambda>(sep, piece, s). length s)") auto

declare split_from.simps [simp del]

definition py_split :: "string \<Rightarrow> string \<Rightarrow> string list" where
  "py_split sep s = split_from sep [] s"

definition rsplit1_head :: "char \<Rightarrow> string \<Rightarrow> string" where
  "rsplit1_head c s =
     (if c \<in> set s then rev (tl (dropWhile (\<lambda>x. x \<noteq> c) (rev s))) else s)"

definition rsplit_last :: "char \<Rightarrow> string \<Rightarrow> string" where
  "rsplit_last c s = rev (takeWhile (\<lambda>x. x \<noteq> c) (rev s))"

definition at_set :: "(string \<times> real) list \<Rightarrow> string \<Rightarrow> real \<Rightarrow> (string \<times> real) list" where
  "at_set aligned_input feature v =
     map (\<lambda>(g, x). if g = feature then (g, v) else (g, x)) aligned_input"

fun map_numerical ::
  "(string \<Rightarrow> real option) \<Rightarrow> (string \<times> string) list \<Rightarrow> string list
     \<Rightarrow> (string \<times> real) list \<Rightarrow> error + (string \<times> real) list" where
  "map_numerical to_float input_data [] aligned_input = Inr aligned_input"
| "map_numerical to_float input_data (num_feature # rest) aligned_input =
     (let pieces = py_split ''__'' num_feature
      in if length pieces < 2 then Inl IndexError
         else (let feature_name = pieces ! 1
               in case map_of input_data feature_name of
                    None \<Rightarrow> map_numerical to_float input_data rest aligned_input
                  | Some s \<Rightarrow>
                      (case to_float s of
                         None \<Rightarrow> Inl ValueError
                       | Some v \<Rightarrow> map_numerical to_float input_data rest
                                     (at_set aligned_input num_feature v))))"

fun map_categorical ::
  "(string \<times> string) list \<Rightarrow> string list \<Rightarrow> (string \<times> real) list
     \<Rightarrow> error + (string \<times> real) list" where
  "map_categorical input_data [] aligned_input = Inr aligned_input"
| "map_categorical input_data (cat_feature # rest) aligned_input =
     (case py_split ''__'' cat_feature of
        [pre, category_name] \<Rightarrow>
          (let column_name = rsplit1_head (CHR ''_'') category_name
           in if map_of input_data column_name \<noteq> None
                 \<and> map_of input_data column_name = Some (rsplit_last (CHR ''_'') cat_feature)
              then map_categorical input_data rest (at_set aligned_input cat_feature 1)
              else map_categorical input_data rest aligned_input)
      | _ \<Rightarrow> Inl ValueError)"

definition create_aligned_input ::
  "(string \<Rightarrow> real option) \<Rightarrow> (string \<times> string) list \<Rightarrow> string list
     \<Rightarrow> error + (string \<times> real) list" where
  "create_aligned_input to_float input_data feature_names =
     (let aligned_input = map (\<lambda>f. (f, 0)) feature_names
      in case map_numerical to_float input_data
                (filter (prefix ''num__'') feature_names) aligned_input of
           Inl e \<Rightarrow> Inl e
         | Inr aligned \<Rightarrow>
             map_categorical input_data (filter (prefix ''cat__'') feature_names) aligned)"

text \<open>
  An occurrence of the separator somewhere in a string; \<^verbatim>\<open>astype(str)\<close> on an aligned
  row, which is what a second alignment of that row starts with; and stand-ins used to run
  the alignment on a concrete row: the feature names of a small model and Python's
  \<^verbatim>\<open>float\<close> on the three strings that occur.
\<close>

fun has_sep :: "string \<Rightarrow> string \<Rightarrow> bool" where
  "has_sep sep [] = False"
| "has_sep sep (c # cs) = (prefix sep (c # cs) \<or> has_sep sep cs)"

definition astype_str :: "(string \<times> real) list \<Rightarrow> (string \<times> string) list" where
  "astype_str row = map (\<lambda>(f, v). (f, float_str v)) row"

definition float_table :: "string \<Rightarrow> real option" where
  "float_table = map_of [(''40.85'', 40.85), (''1.0'', 1), (''0.0'', 0)]"

definition example_features :: "string list" where
  "example_features =
     [''num__latitude'', ''num__crash_rate'', ''cat__borough_Bronx'',
      ''cat__borough_Staten Island'', ''cat__time_of_day_Morning'', ''cat__month_3'']"

definition example_input :: "(string \<times> string) list" where
  "example_input = [(''borough'', ''Bronx''), (''latitude'', ''40.85''), (''month'', ''7'')]"

section \<open>Theorems\<close>

subsection \<open>Severity category thresholds\<close>

text \<open>
  C1. The severity category is a total function of the severity score with three
  non-overlapping ranges: the category is Low exactly when the score is at most 4, Medium
  exactly when the score is above 4 and at most 10, and High exactly when the score is above
  10. At the boundaries, 4 is Low, 5 and 10 are Medium and 11 is High.
\<close>

theorem aggregate_severity_thresholds:
  "(aggregate_severity score = ''Low'') = (score \<le> 4)
   \<and> (aggregate_severity score = ''Medium'') = (4 < score \<and> score \<le> 10)
   \<and> (aggregate_severity score = ''High'') = (10 < score)
   \<and> severity_category r = aggregate_severity (severity_score r)
   \<and> aggregate_severity 4 = ''Low'' \<and> aggregate_severity 5 = ''Medium''
   \<and> aggregate_severity 10 = ''Medium'' \<and> aggregate_severity 11 = ''High''"
  by (simp add: severity_category_def)

theorem aggregate_severity_thresholds_witness:
  "aggregate_severity 4 = ''Low'' \<and> aggregate_severity 7 = ''Medium''
   \<and> aggregate_severity 11 = ''High'' \<and> aggregate_severity (- 3) = ''Low''
   \<and> severity_category blank_row = ''Low''"
  using aggregate_severity_thresholds [of 7 blank_row]
  by (simp add: blank_row_def severity_score_def total_deaths_def total_injuries_def
      sum64_def wrap64_def)

subsection \<open>Severity score\<close>

lemma wrap64_id: "- (2 ^ 63) \<le> x \<Longrightarrow> x < 2 ^ 63 \<Longrightarrow> wrap64 x = x"
  by (simp add: wrap64_def)

lemma sum64_four:
  assumes "0 \<le> a" "0 \<le> b" "0 \<le> c" "0 \<le> d" "a + b + c + d < 2 ^ 63"
  shows "sum64 [a, b, c, d] = a + b + c + d"
proof -
  have "wrap64 a = a" using assms by (intro wrap64_id) simp_all
  moreover have "wrap64 (a + b) = a + b" using assms by (intro wrap64_id) simp_all
  moreover have "wrap64 (a + b + c) = a + b + c" using assms by (intro wrap64_id) simp_all
  moreover have "wrap64 (a + b + c + d) = a + b + c + d"
    using assms by (intro wrap64_id) simp_all
  ultimately show ?thesis by (simp add: sum64_def)
qed

text \<open>
  C2 (amended). When the eight count fields of a record are non-negative and five times the
  sum of the four death fields plus the sum of the four injury fields stays below \<open>2^63\<close>
  (the 64-bit arithmetic does not overflow), the severity score is five times the sum of
  the four death fields plus the sum of the four injury fields, and it is not negative. A
  record with one pedestrian killed and two motorists injured has score 7 and category
  Medium.
\<close>

theorem severity_score_weighted_sum:
  assumes "0 \<le> number_of_persons_killed r" "0 \<le> number_of_pedestrians_killed r"
    "0 \<le> number_of_cyclist_killed r" "0 \<le> number_of_motorist_killed r"
    "0 \<le> number_of_persons_injured r" "0 \<le> number_of_pedestrians_injured r"
    "0 \<le> number_of_cyclist_injured r" "0 \<le> number_of_motorist_injured r"
    and "5 * (number_of_persons_killed r + number_of_pedestrians_killed r
                + number_of_cyclist_killed r + number_of_motorist_killed r)
           + (number_of_persons_injured r + number_of_pedestrians_injured r
              + number_of_cyclist_injured r + number_of_motorist_injured r) < 2 ^ 63"
  shows "severity_score r =
           5 * (number_of_persons_killed r + number_of_pedestrians_killed r
                + number_of_cyclist_killed r + number_of_motorist_killed r)
           + (number_of_persons_injured r + number_of_pedestrians_injured r
              + number_of_cyclist_injured r + number_of_motorist_injured r)
         \<and> 0 \<le> severity_score r"
proof -
  let ?d = "number_of_persons_killed r + number_of_pedestrians_killed r
                + number_of_cyclist_killed r + number_of_motorist_killed r"
  let ?i = "number_of_persons_injured r + number_of_pedestrians_injured r
              + number_of_cyclist_injured r + number_of_motorist_injured r"
  have d0: "0 \<le> ?d" and i0: "0 \<le> ?i" using assms by simp_all
  have bound: "5 * ?d + ?i < 2 ^ 63" using assms(9) .
  have d: "total_deaths r = ?d"
    unfolding total_deaths_def using assms(1-4) d0 i0 bound by (intro sum64_four) simp_all
  have i: "total_injuries r = ?i"
    unfolding total_injuries_def using assms(5-8) d0 i0 bound by (intro sum64_four) simp_all
  have m: "wrap64 (?d * 5) = ?d * 5" using d0 i0 bound by (intro wrap64_id) simp_all
  have t: "wrap64 (?d * 5 + ?i) = ?d * 5 + ?i" using d0 i0 bound by (intro wrap64_id) simp_all
  have "severity_score r = ?d * 5 + ?i"
    unfolding severity_score_def d i m t ..
  with d0 i0 show ?thesis by simp
qed

theorem severity_score_weighted_sum_witness:
  "severity_score (blank_row\<lparr>number_of_pedestrians_killed := 1, number_of_motorist_injured := 2\<rparr>) = 7
   \<and> severity_category (blank_row\<lparr>number_of_pedestrians_killed := 1, number_of_motorist_injured := 2\<rparr>) = ''Medium''
   \<and> 0 \<le> severity_score (blank_row\<lparr>number_of_pedestrians_killed := 1, number_of_motorist_injured := 2\<rparr>)"
  using severity_score_weighted_sum
    [of "blank_row\<lparr>number_of_pedestrians_killed := 1, number_of_motorist_injured := 2\<rparr>"]
  by (simp add: blank_row_def severity_category_def)

text \<open>
  The specification's sentence does not hold for every record with non-negative counts: with
  two quintillion persons killed, a value the 64-bit column holds, the multiplication by 5
  wraps around, the score is negative and the category is Low.
\<close>

theorem severity_score_overflow_counterexample:
  "severity_score (blank_row\<lparr>number_of_persons_killed := 2000000000000000000\<rparr>)
     = - 8446744073709551616
   \<and> severity_category (blank_row\<lparr>number_of_persons_killed := 2000000000000000000\<rparr>) = ''Low''
   \<and> 0 \<le> number_of_persons_killed (blank_row\<lparr>number_of_persons_killed := 2000000000000000000\<rparr>)
   \<and> number_of_persons_killed (blank_row\<lparr>number_of_persons_killed := 2000000000000000000\<rparr>)
       < 2 ^ 63"
  by (simp add: blank_row_def severity_category_def severity_score_def total_deaths_def
      total_injuries_def sum64_def wrap64_def)

subsection \<open>Category remapping\<close>

lemma distinct_vehicle_keys: "distinct (map fst vehicle_mapping)"
  by (simp add: vehicle_mapping_def)

text \<open>
  The vehicle path lower-cases the string, looks it up and fills Unknown where the table has
  no entry.
\<close>

lemma vehicle_category_lookup:
  "(lower v \<notin> fst ` set vehicle_mapping \<longrightarrow> vehicle_category v = ''Unknown'')
   \<and> ((lower v, c) \<in> set vehicle_mapping \<longrightarrow> vehicle_category v = c)
   \<and> (lower v = lower w \<longrightarrow> vehicle_category v = vehicle_category w)"
proof -
  have a: "lower v \<notin> fst ` set vehicle_mapping \<longrightarrow> vehicle_category v = ''Unknown''"
    by (simp add: vehicle_category_def series_map_def fillna_def map_of_eq_None_iff [THEN iffD2])
  have b: "(lower v, c) \<in> set vehicle_mapping \<longrightarrow> vehicle_category v = c"
    using distinct_vehicle_keys
    by (simp add: vehicle_category_def series_map_def fillna_def)
  have c: "lower v = lower w \<longrightarrow> vehicle_category v = vehicle_category w"
    by (simp add: vehicle_category_def)
  from a b c show ?thesis by blast
qed

text \<open>
  C3. The contributing-factor path at the inputs \<^verbatim>\<open>unsafe speed\<close> and
  \<^verbatim>\<open>Turning Improperly\<close>: the string is looked up as written and a missing result is
  not filled, so the lower-case spelling of the key \<^verbatim>\<open>Unsafe Speed\<close> and a string outside
  the table both come out with no category, neither with the key's category Human Error nor
  with Unknown/Other. The vehicle path on inputs of the same kind lower-cases
  \<^verbatim>\<open>SEDAN\<close> to a key of its table and fills Unknown for \<^verbatim>\<open>Ambulance\<close>.
\<close>

theorem factor_lookup_without_fallback:
  "contributing_factor_category ''unsafe speed'' = None
   \<and> contributing_factor_category ''Unsafe Speed'' = Some ''Human Error''
   \<and> contributing_factor_category ''Turning Improperly'' = None
   \<and> vehicle_category ''SEDAN'' = ''Passenger Vehicle''
   \<and> vehicle_category ''Ambulance'' = ''Unknown''"
  by (simp add: contributing_factor_category_def vehicle_category_def series_map_def fillna_def
      factor_mapping_def vehicle_mapping_def lower_def lower_char_def)

subsection \<open>Time-based features\<close>

lemma div_step:
  fixes y d :: int
  assumes "0 < d"
  shows "y div d = (y - 1) div d + (if y mod d = 0 then 1 else 0)"
proof -
  define q where "q = (y - 1) div d"
  define r where "r = (y - 1) mod d"
  have r: "0 \<le> r" "r < d" using assms by (simp_all add: r_def)
  have y: "y = q * d + (r + 1)"
    using div_mult_mod_eq [of "y - 1" d] by (simp add: q_def r_def)
  show ?thesis
  proof (cases "r + 1 < d")
    case True
    with r have "(r + 1) div d = 0" "(r + 1) mod d = r + 1" by simp_all
    with r assms have "y div d = q" "y mod d \<noteq> 0" by (simp_all add: y)
    then show ?thesis by (simp add: q_def)
  next
    case False
    with r have d: "r + 1 = d" by simp
    then have "y = (q + 1) * d" by (simp add: y algebra_simps)
    with assms have "y div d = q + 1" "y mod d = 0" by simp_all
    then show ?thesis by (simp add: q_def)
  qed
qed

lemma mod_coarser:
  fixes y a b :: int
  assumes "y mod b = 0" "a dvd b"
  shows "y mod a = 0"
proof -
  from assms(1) have "b dvd y" by (simp add: mod_eq_0_iff_dvd)
  with assms(2) have "a dvd y" by (rule dvd_trans)
  then show ?thesis by (simp add: mod_eq_0_iff_dvd)
qed

lemma days_before_year_step:
  "days_before_year (y + 1) = days_before_year y + (if is_leap y then 366 else 365)"
proof -
  define a where "a = (y - 1) div 4"
  define b where "b = (y - 1) div 100"
  define c where "c = (y - 1) div 400"
  have d4: "y div 4 = a + (if y mod 4 = 0 then 1 else 0)"
    unfolding a_def by (rule div_step) simp
  have d100: "y div 100 = b + (if y mod 100 = 0 then 1 else 0)"
    unfolding b_def by (rule div_step) simp
  have d400: "y div 400 = c + (if y mod 400 = 0 then 1 else 0)"
    unfolding c_def by (rule div_step) simp
  have c1: "y mod 4 = 0" if "y mod 100 = 0"
    using that by (rule mod_coarser) simp
  have c2: "y mod 100 = 0" if "y mod 400 = 0"
    using that by (rule mod_coarser) simp
  have e: "days_before_year (y + 1) = y * 365 + y div 4 - y div 100 + y div 400"
    by (simp add: days_before_year_def)
  have f: "days_before_year y = (y - 1) * 365 + a - b + c"
    by (simp add: days_before_year_def a_def b_def c_def)
  show ?thesis
  proof (cases "y mod 4 = 0")
    case m4: True
    show ?thesis
    proof (cases "y mod 100 = 0")
      case m100: True
      show ?thesis
      proof (cases "y mod 400 = 0")
        case True
        with m4 m100 show ?thesis
          unfolding e f d4 d100 d400 is_leap_def by (simp add: algebra_simps)
      next
        case False
        with m4 m100 show ?thesis
          unfolding e f d4 d100 d400 is_leap_def by (simp add: algebra_simps)
      qed
    next
      case False
      with c2 have "y mod 400 \<noteq> 0" by auto
      with m4 False show ?thesis
        unfolding e f d4 d100 d400 is_leap_def by (simp add: algebra_simps)
    qed
  next
    case False
    with c1 have n100: "y mod 100 \<noteq> 0" by auto
    with c2 have "y mod 400 \<noteq> 0" by auto
    with False n100 show ?thesis
      unfolding e f d4 d100 d400 is_leap_def by (simp add: algebra_simps)
  qed
qed

lemma days_before_month_step:
  assumes "1 \<le> m"
  shows "days_before_month y (m + 1) = days_before_month y m + days_in_month y m"
proof -
  from assms have "[1..m] = [1..m - 1] @ [m]" by (rule upto_rec2)
  then show ?thesis by (simp add: days_before_month_def)
qed

lemma days_before_january: "days_before_month y 1 = 0"
  by (simp add: days_before_month_def)

lemma days_before_december:
  "days_before_month y 12 + 31 = (if is_leap y then 366 else 365)"
  by (simp add: days_before_month_def days_in_month_def upto.simps)

lemma days_in_month_positive: "28 \<le> days_in_month y m"
  by (simp add: days_in_month_def)

lemma toordinal_next_day:
  assumes "valid_timestamp t"
  shows "toordinal (next_day t) = toordinal t + 1"
proof (cases "ts_day t < days_in_month (ts_year t) (ts_month t)")
  case True
  then show ?thesis by (simp add: next_day_def toordinal_def)
next
  case False
  with assms have last: "ts_day t = days_in_month (ts_year t) (ts_month t)"
    by (simp add: valid_timestamp_def)
  show ?thesis
  proof (cases "ts_month t < 12")
    case True
    from assms have "1 \<le> ts_month t" by (simp add: valid_timestamp_def)
    then show ?thesis
      using False True last by (simp add: next_day_def toordinal_def days_before_month_step)
  next
    case nm: False
    with assms have m: "ts_month t = 12" by (simp add: valid_timestamp_def)
    then have d: "ts_day t = 31" using last by (simp add: days_in_month_def)
    show ?thesis
      using False nm m d days_before_december [of "ts_year t"]
      by (simp add: next_day_def toordinal_def days_before_year_step days_before_january)
  qed
qed

lemma valid_next_day:
  assumes "valid_timestamp t"
  shows "valid_timestamp (next_day t)"
  using assms days_in_month_positive [of "ts_year t" "ts_month t + 1"]
    days_in_month_positive [of "ts_year t + 1" 1]
  by (auto simp: valid_timestamp_def next_day_def)

lemma weekday_next_day:
  assumes "valid_timestamp t"
  shows "weekday (next_day t) = (weekday t + 1) mod 7"
  by (simp add: weekday_def toordinal_next_day [OF assms] mod_simps algebra_simps)

lemma weekday_range: "0 \<le> weekday t" "weekday t < 7"
  by (simp_all add: weekday_def)

lemma day_name_in: "day_name t \<in> set day_names"
proof -
  have "0 \<le> weekday t" "weekday t < 7" by (simp_all add: weekday_def)
  then have "nat (weekday t) < length day_names" by (simp add: day_names_def)
  then show ?thesis unfolding day_name_def by (rule nth_mem)
qed

lemma example_ts_sunday: "day_of_week example_ts = ''Sunday''"
  by (simp add: day_of_week_def day_name_def weekday_def toordinal_def days_before_year_def
      days_before_month_def days_in_month_def is_leap_def example_ts_def day_names_def upto.simps)

lemma calendar_anchors:
  "day_of_week \<lparr>ts_year = 1970, ts_month = 1, ts_day = 1, ts_hour = 0, ts_minute = 0\<rparr>
     = ''Thursday''"
  "day_of_week \<lparr>ts_year = 2021, ts_month = 12, ts_day = 31, ts_hour = 23, ts_minute = 59\<rparr>
     = ''Friday''"
  "day_of_week \<lparr>ts_year = 2024, ts_month = 2, ts_day = 29, ts_hour = 12, ts_minute = 0\<rparr>
     = ''Thursday''"
  by (simp_all add: day_of_week_def day_name_def weekday_def toordinal_def days_before_year_def
      days_before_month_def days_in_month_def is_leap_def day_names_def upto.simps)

text \<open>
  C7. For a parsed timestamp, the hour of the day is the timestamp's hour and lies in 0..23,
  the month is the timestamp's month and lies in 1..12, and the time of day is the bucket of
  the hour under the right-open intervals [0,6) Night, [6,12) Morning, [12,18) Afternoon,
  [18,24) Evening. The day of the week is one of the seven weekday names, it does not depend
  on the time within the day, and it follows the calendar: the day after a date carries the
  next weekday name, Monday following Sunday. The timestamp 2020-03-15 07:30 gives Sunday,
  hour 7, Morning and month 3; 1970-01-01 is a Thursday, 2021-12-31 a Friday and 2024-02-29
  a Thursday.
\<close>

theorem temporal_features:
  assumes "valid_timestamp t"
  shows "hour_of_day t = ts_hour t \<and> 0 \<le> hour_of_day t \<and> hour_of_day t \<le> 23
    \<and> month t = ts_month t \<and> 1 \<le> month t \<and> month t \<le> 12
    \<and> time_of_day t = Some (if ts_hour t < 6 then ''Night''
                            else if ts_hour t < 12 then ''Morning''
                            else if ts_hour t < 18 then ''Afternoon''
                            else ''Evening'')
    \<and> day_of_week t \<in> set day_names
    \<and> (\<exists>k<7. day_of_week t = day_names ! k
              \<and> day_of_week (next_day t) = day_names ! ((k + 1) mod 7))
    \<and> valid_timestamp (next_day t)
    \<and> day_of_week (t\<lparr>ts_hour := h, ts_minute := m\<rparr>) = day_of_week t
    \<and> day_of_week example_ts = ''Sunday''
    \<and> day_of_week \<lparr>ts_year = 1970, ts_month = 1, ts_day = 1, ts_hour = 0, ts_minute = 0\<rparr>
        = ''Thursday''
    \<and> day_of_week \<lparr>ts_year = 2021, ts_month = 12, ts_day = 31, ts_hour = 23, ts_minute = 59\<rparr>
        = ''Friday''
    \<and> day_of_week \<lparr>ts_year = 2024, ts_month = 2, ts_day = 29, ts_hour = 12, ts_minute = 0\<rparr>
        = ''Thursday''"
proof -
  have a: "hour_of_day t = ts_hour t \<and> 0 \<le> hour_of_day t \<and> hour_of_day t \<le> 23
    \<and> month t = ts_month t \<and> 1 \<le> month t \<and> month t \<le> 12
    \<and> time_of_day t = Some (if ts_hour t < 6 then ''Night''
                            else if ts_hour t < 12 then ''Morning''
                            else if ts_hour t < 18 then ''Afternoon''
                            else ''Evening'')"
    using assms
    by (simp add: valid_timestamp_def hour_of_day_def month_def time_of_day_def)
  have b: "day_of_week t \<in> set day_names"
    by (simp add: day_of_week_def day_name_in)
  have c: "\<exists>k<7. day_of_week t = day_names ! k
              \<and> day_of_week (next_day t) = day_names ! ((k + 1) mod 7)"
  proof -
    let ?k = "nat (weekday t)"
    have r: "0 \<le> weekday t" "weekday t < 7" by (rule weekday_range)+
    then have k: "?k < 7" by simp
    have "nat (weekday (next_day t)) = (?k + 1) mod 7"
      using r by (simp add: weekday_next_day [OF assms] nat_mod_distrib nat_add_distrib)
    then have "day_of_week t = day_names ! ?k
        \<and> day_of_week (next_day t) = day_names ! ((?k + 1) mod 7)"
      by (simp add: day_of_week_def day_name_def)
    with k show ?thesis by blast
  qed
  have d: "valid_timestamp (next_day t)" using assms by (rule valid_next_day)
  have e: "day_of_week (t\<lparr>ts_hour := h, ts_minute := m\<rparr>) = day_of_week t"
    by (simp add: day_of_week_def day_name_def weekday_def toordinal_def)
  from a b c d e example_ts_sunday calendar_anchors show ?thesis by blast
qed

theorem temporal_features_witness:
  "valid_timestamp example_ts
   \<and> day_of_week example_ts = ''Sunday'' \<and> hour_of_day example_ts = 7
   \<and> time_of_day example_ts = Some ''Morning'' \<and> month example_ts = 3
   \<and> next_day example_ts = example_ts\<lparr>ts_day := 16\<rparr>
   \<and> day_of_week (next_day example_ts) = ''Monday''"
proof -
  have v: "valid_timestamp example_ts"
    by (simp add: valid_timestamp_def example_ts_def days_in_month_def)
  have n: "next_day example_ts = example_ts\<lparr>ts_day := 16\<rparr>"
    by (simp add: next_day_def example_ts_def days_in_month_def)
  have s: "day_names ! 6 = ''Sunday''" "day_names ! 0 = ''Monday''"
    by (simp_all add: day_names_def)
  from temporal_features [OF v] obtain k where k: "k < 7" "day_of_week example_ts = day_names ! k"
    "day_of_week (next_day example_ts) = day_names ! ((k + 1) mod 7)"
    and d: "day_of_week example_ts = ''Sunday''" and h: "hour_of_day example_ts = ts_hour example_ts"
    and mo: "month example_ts = ts_month example_ts"
    and tod: "time_of_day example_ts = Some (if ts_hour example_ts < 6 then ''Night''
                            else if ts_hour example_ts < 12 then ''Morning''
                            else if ts_hour example_ts < 18 then ''Afternoon''
                            else ''Evening'')"
    by blast
  from k(1) have "k \<in> {0, 1, 2, 3, 4, 5, 6}" by auto
  with k(2) d have "k = 6" by (auto simp: day_names_def)
  with k(3) s have m: "day_of_week (next_day example_ts) = ''Monday''" by simp
  from v d h mo tod n m show ?thesis by (simp add: example_ts_def)
qed

subsection \<open>Borough assignment\<close>

lemma get_borough_loop_first_match:
  "(\<exists>i<length rs. in_bounds (snd (rs ! i)) lat lon
        \<and> (\<forall>j<i. \<not> in_bounds (snd (rs ! j)) lat lon)
        \<and> get_borough_loop rs lat lon = fst (rs ! i))
   \<or> ((\<forall>i<length rs. \<not> in_bounds (snd (rs ! i)) lat lon)
        \<and> get_borough_loop rs lat lon = ''Unknown'')"
proof (induction rs)
  case Nil
  show ?case by simp
next
  case (Cons p rs)
  obtain borough b where p: "p = (borough, b)" by (cases p)
  show ?case
  proof (cases "in_bounds b lat lon")
    case True
    then have "in_bounds (snd ((p # rs) ! 0)) lat lon
        \<and> (\<forall>j<0. \<not> in_bounds (snd ((p # rs) ! j)) lat lon)
        \<and> get_borough_loop (p # rs) lat lon = fst ((p # rs) ! 0)"
      by (simp add: p)
    then show ?thesis by blast
  next
    case False
    from Cons.IH show ?thesis
    proof
      assume "\<exists>i<length rs. in_bounds (snd (rs ! i)) lat lon
        \<and> (\<forall>j<i. \<not> in_bounds (snd (rs ! j)) lat lon)
        \<and> get_borough_loop rs lat lon = fst (rs ! i)"
      then obtain i where i: "i < length rs" "in_bounds (snd (rs ! i)) lat lon"
        "\<forall>j<i. \<not> in_bounds (snd (rs ! j)) lat lon"
        "get_borough_loop rs lat lon = fst (rs ! i)" by blast
      have "\<forall>j<Suc i. \<not> in_bounds (snd ((p # rs) ! j)) lat lon"
        using i(3) False by (auto simp: p less_Suc_eq_0_disj)
      with i False have "Suc i < length (p # rs) \<and> in_bounds (snd ((p # rs) ! Suc i)) lat lon
        \<and> (\<forall>j<Suc i. \<not> in_bounds (snd ((p # rs) ! j)) lat lon)
        \<and> get_borough_loop (p # rs) lat lon = fst ((p # rs) ! Suc i)"
        by (simp add: p)
      then show ?thesis by blast
    next
      assume a: "(\<forall>i<length rs. \<not> in_bounds (snd (rs ! i)) lat lon)
        \<and> get_borough_loop rs lat lon = ''Unknown''"
      then have "\<forall>i<length (p # rs). \<not> in_bounds (snd ((p # rs) ! i)) lat lon"
        using False by (auto simp: p less_Suc_eq_0_disj)
      with a False show ?thesis by (simp add: p)
    qed
  qed
qed

text \<open>
  C6. Borough assignment is total: every point gets one of the five borough names or
  Unknown. The boxes are tried in the order of the table; the result is the name of the first
  box that contains the point, and Unknown when no box contains it. The point
  (40.72, -73.95) lies in the boxes of Manhattan, Brooklyn and Queens and is assigned to
  Manhattan, the first of them.
\<close>

theorem get_borough_total_first_match:
  "get_borough lat lon \<in> {''Manhattan'', ''Brooklyn'', ''Queens'', ''Bronx'', ''Staten Island'', ''Unknown''}
   \<and> ((\<exists>i<length borough_ranges. in_bounds (snd (borough_ranges ! i)) lat lon
          \<and> (\<forall>j<i. \<not> in_bounds (snd (borough_ranges ! j)) lat lon)
          \<and> get_borough lat lon = fst (borough_ranges ! i))
        \<or> ((\<forall>i<length borough_ranges. \<not> in_bounds (snd (borough_ranges ! i)) lat lon)
          \<and> get_borough lat lon = ''Unknown''))"
proof
  show "get_borough lat lon \<in> {''Manhattan'', ''Brooklyn'', ''Queens'', ''Bronx'', ''Staten Island'', ''Unknown''}"
    by (simp add: get_borough_def borough_ranges_def)
  show "(\<exists>i<length borough_ranges. in_bounds (snd (borough_ranges ! i)) lat lon
          \<and> (\<forall>j<i. \<not> in_bounds (snd (borough_ranges ! j)) lat lon)
          \<and> get_borough lat lon = fst (borough_ranges ! i))
        \<or> ((\<forall>i<length borough_ranges. \<not> in_bounds (snd (borough_ranges ! i)) lat lon)
          \<and> get_borough lat lon = ''Unknown'')"
    unfolding get_borough_def by (rule get_borough_loop_first_match)
qed

theorem get_borough_total_first_match_witness:
  "get_borough 40.72 (- 73.95) = ''Manhattan''
   \<and> in_bounds (snd (borough_ranges ! 0)) 40.72 (- 73.95)
   \<and> in_bounds (snd (borough_ranges ! 1)) 40.72 (- 73.95)
   \<and> in_bounds (snd (borough_ranges ! 2)) 40.72 (- 73.95)
   \<and> get_borough 40.6 (- 74.0) = ''Brooklyn''
   \<and> get_borough 0 0 = ''Unknown''
   \<and> get_borough 40.72 (- 73.95) \<in> {''Manhattan'', ''Brooklyn'', ''Queens'', ''Bronx'', ''Staten Island'', ''Unknown''}"
  using get_borough_total_first_match [of "40.72" "- 73.95"]
  by (simp add: get_borough_def borough_ranges_def in_bounds_def)

subsection \<open>Collision clusters in chunks\<close>

lemma chunk_loop_concat:
  "0 < n \<Longrightarrow>
   chunk_loop fit df n eps ms start acc =
     acc @ concat (map (cluster_chunk fit eps ms) (contiguous_chunks n (drop start df)))"
proof (induction fit df n eps ms start acc rule: chunk_loop.induct)
  case (1 fit df n eps ms start acc)
  show ?case
  proof (cases "length df \<le> start")
    case True
    then show ?thesis
      by (simp add: chunk_loop.simps contiguous_chunks.simps)
  next
    case False
    with 1 have IH: "chunk_loop fit df n eps ms (start + n) (acc @ cluster_chunk fit eps ms (iloc df start (start + n)))
        = (acc @ cluster_chunk fit eps ms (iloc df start (start + n)))
          @ concat (map (cluster_chunk fit eps ms) (contiguous_chunks n (drop (start + n) df)))"
      by simp
    have step: "contiguous_chunks n (drop start df)
        = take n (drop start df) # contiguous_chunks n (drop (start + n) df)"
      using False "1.prems"
      by (subst contiguous_chunks.simps) (simp add: add.commute)
    have "chunk_loop fit df n eps ms start acc
        = chunk_loop fit df n eps ms (start + n) (acc @ cluster_chunk fit eps ms (iloc df start (start + n)))"
      using False "1.prems" by (subst chunk_loop.simps) (simp add: Let_def)
    with IH show ?thesis
      by (simp add: step iloc_def)
  qed
qed

lemma concat_contiguous_chunks: "0 < n \<Longrightarrow> concat (contiguous_chunks n xs) = xs"
proof (induction n xs rule: contiguous_chunks.induct)
  case (1 n xs)
  show ?case
  proof (cases "xs = []")
    case True
    then show ?thesis by (simp add: contiguous_chunks.simps)
  next
    case False
    with 1 have "concat (contiguous_chunks n (drop n xs)) = drop n xs" by simp
    with False "1.prems" show ?thesis
      by (subst contiguous_chunks.simps) simp
  qed
qed

lemma contiguous_chunks_nth:
  "0 < n \<Longrightarrow> i < length (contiguous_chunks n xs) \<Longrightarrow>
   contiguous_chunks n xs ! i = take n (drop (i * n) xs) \<and> i * n < length xs"
proof (induction n xs arbitrary: i rule: contiguous_chunks.induct)
  case (1 n xs)
  show ?case
  proof (cases "xs = []")
    case True
    with "1.prems" show ?thesis by (simp add: contiguous_chunks.simps)
  next
    case False
    have unf: "contiguous_chunks n xs = take n xs # contiguous_chunks n (drop n xs)"
      using False "1.prems" by (subst contiguous_chunks.simps) simp
    show ?thesis
    proof (cases i)
      case 0
      with False unf show ?thesis by simp
    next
      case (Suc j)
      with "1.prems" unf have j: "j < length (contiguous_chunks n (drop n xs))" by simp
      from "1.IH" [OF _ "1.prems"(1) j] False "1.prems"(1)
      have "contiguous_chunks n (drop n xs) ! j = take n (drop (j * n) (drop n xs))
            \<and> j * n < length (drop n xs)" by simp
      then have "contiguous_chunks n (drop n xs) ! j = take n (drop (Suc j * n) xs)"
        and "Suc j * n < length xs"
        by (simp_all add: add.commute less_diff_conv)
      with Suc unf show ?thesis by simp
    qed
  qed
qed

lemma length_concat_chunks:
  assumes "\<And>ys. length (g ys) = length ys" "0 < n"
  shows "length (concat (map g (contiguous_chunks n xs))) = length xs"
proof -
  have "length (concat (map g cs)) = length (concat cs)" for cs
    by (induction cs) (simp_all add: assms(1))
  then show ?thesis by (simp add: concat_contiguous_chunks assms(2))
qed

lemma nth_concat_chunks:
  assumes len: "\<And>ys. length (g ys) = length ys"
  shows "0 < n \<Longrightarrow> i < length xs \<Longrightarrow>
    concat (map g (contiguous_chunks n xs)) ! i = g (take n (drop ((i div n) * n) xs)) ! (i mod n)"
proof (induction n xs arbitrary: i rule: contiguous_chunks.induct)
  case (1 m xs)
  then have xs: "xs \<noteq> []" by auto
  have unf: "contiguous_chunks m xs = take m xs # contiguous_chunks m (drop m xs)"
    using xs "1.prems"(1) by (subst contiguous_chunks.simps) simp
  show ?case
  proof (cases "i < m")
    case True
    with "1.prems" have "i < length (g (take m xs))" by (simp add: len)
    with True show ?thesis by (simp add: unf nth_append)
  next
    case False
    then have ge: "m \<le> i" by simp
    with "1.prems" have lg: "length (g (take m xs)) = m" by (simp add: len)
    have im: "i - m < length (drop m xs)" using "1.prems" ge by simp
    have IH: "concat (map g (contiguous_chunks m (drop m xs))) ! (i - m)
        = g (take m (drop (((i - m) div m) * m) (drop m xs))) ! ((i - m) mod m)"
      using "1.IH" [OF _ "1.prems"(1) im] xs "1.prems"(1) by simp
    have d: "(i - m) div m * m + m = i div m * m"
      using ge "1.prems"(1) by (simp add: le_div_geq)
    have m: "(i - m) mod m = i mod m"
      using ge by (simp add: le_mod_geq)
    have "concat (map g (contiguous_chunks m xs)) ! i
        = concat (map g (contiguous_chunks m (drop m xs))) ! (i - m)"
      using ge lg by (simp add: unf nth_append)
    with IH d m show ?thesis by (simp add: add.commute)
  qed
qed

text \<open>
  C4. For a positive chunk size, the chunked procedure returns exactly the concatenation, in
  the original order, of the labels obtained by clustering each chunk on its own: the
  clustering is run, with the given eps and min_samples, on the latitude and longitude of the
  rows of the chunk, both converted from degrees to radians. The chunks are the fixed-size
  contiguous pieces of the record sequence (chunk \<open>i\<close> holds the rows from position
  \<open>i * chunk_size\<close> on, and the chunks put together give the sequence back). Each chunk is
  clustered by a separate run, so its labels depend on that chunk only. The pipeline calls
  the procedure with chunk size 10000, eps 0.01 and min_samples 10.
\<close>

theorem chunked_clustering_is_concatenation:
  assumes "0 < chunk_size"
  shows "cluster_in_chunks fit df chunk_size eps min_samples
           = Inr (concat (map (\<lambda>chunk. fit eps min_samples
                                 (map (\<lambda>r. (latitude r * pi / 180, longitude r * pi / 180)) chunk))
                            (contiguous_chunks (nat chunk_size) df)))
    \<and> concat (contiguous_chunks (nat chunk_size) df) = df
    \<and> (\<forall>i < length (contiguous_chunks (nat chunk_size) df).
          contiguous_chunks (nat chunk_size) df ! i
            = take (nat chunk_size) (drop (i * nat chunk_size) df)
          \<and> i * nat chunk_size < length df)
    \<and> collision_cluster fit df
         = Inr (concat (map (\<lambda>chunk. fit (1 / 100) 10
                               (map (\<lambda>r. (latitude r * pi / 180, longitude r * pi / 180)) chunk))
                          (contiguous_chunks 10000 df)))"
proof -
  from assms have n: "0 < nat chunk_size" by simp
  have cc: "cluster_chunk fit e m
      = (\<lambda>chunk. fit e m (map (\<lambda>r. (latitude r * pi / 180, longitude r * pi / 180)) chunk))"
    for e m
    by (rule ext) (simp add: cluster_chunk_def radians_def comp_def)
  have a: "cluster_in_chunks fit df chunk_size eps min_samples
           = Inr (concat (map (cluster_chunk fit eps min_samples)
                            (contiguous_chunks (nat chunk_size) df)))"
    using assms chunk_loop_concat [OF n, of fit df eps min_samples 0 "[]"]
    by (simp add: cluster_in_chunks_def)
  have b: "concat (contiguous_chunks (nat chunk_size) df) = df"
    using n by (rule concat_contiguous_chunks)
  have c: "\<forall>i < length (contiguous_chunks (nat chunk_size) df).
          contiguous_chunks (nat chunk_size) df ! i
            = take (nat chunk_size) (drop (i * nat chunk_size) df)
          \<and> i * nat chunk_size < length df"
    using contiguous_chunks_nth [OF n] by blast
  have d: "collision_cluster fit df
         = Inr (concat (map (cluster_chunk fit (1 / 100) 10) (contiguous_chunks 10000 df)))"
    using chunk_loop_concat [of 10000 fit df "1 / 100" 10 0 "[]"]
    by (simp add: collision_cluster_def cluster_in_chunks_def)
  from a b c d show ?thesis unfolding cc by blast
qed

theorem chunked_clustering_is_concatenation_witness:
  "cluster_in_chunks same_place_labels place_rows 2 0.01 10 = Inr [0, 0, - 1, 1, 0]
   \<and> contiguous_chunks 2 place_rows
       = [take 2 place_rows, take 2 (drop 2 place_rows), drop 4 place_rows]"
proof -
  have p: "pi < 4" "\<not> pi < 2" "pi < 6"
    using pi_less_4 pi_ge_two by simp_all
  have ch: "contiguous_chunks 2 place_rows
       = [take 2 place_rows, take 2 (drop 2 place_rows), drop 4 place_rows]"
    by (simp add: contiguous_chunks.simps place_rows_def)
  have "cluster_in_chunks same_place_labels place_rows 2 0.01 10
      = Inr (concat (map (\<lambda>chunk. same_place_labels 0.01 10
                                 (map (\<lambda>r. (latitude r * pi / 180, longitude r * pi / 180)) chunk))
                            (contiguous_chunks 2 place_rows)))"
    using chunked_clustering_is_concatenation [of 2 same_place_labels place_rows "0.01" 10]
    by simp
  also have "\<dots> = Inr [0, 0, - 1, 1, 0]"
    unfolding ch using p by (simp add: place_rows_def same_place_labels_def blank_row_def)
  finally show ?thesis using ch by simp
qed

text \<open>
  C10. When the clustering returns one label per point, \<^verbatim>\<open>cluster_in_chunks\<close> with a
  positive chunk size returns one label per row of the dataframe, in row order: the label
  at position \<open>i\<close> is the label that the clustering of the chunk containing row \<open>i\<close>
  gave to that row. This includes the rows of a final chunk shorter than the chunk size.
\<close>

theorem cluster_in_chunks_one_label_per_row:
  assumes "0 < chunk_size"
    and "\<And>points. length (fit eps min_samples points) = length points"
  shows "\<exists>labels. cluster_in_chunks fit df chunk_size eps min_samples = Inr labels
    \<and> length labels = length df
    \<and> (\<forall>i < length df.
          labels ! i = cluster_chunk fit eps min_samples
                         (iloc df (i div nat chunk_size * nat chunk_size)
                                  (i div nat chunk_size * nat chunk_size + nat chunk_size))
                       ! (i mod nat chunk_size))"
proof -
  from assms(1) have n: "0 < nat chunk_size" by simp
  have len: "length (cluster_chunk fit eps min_samples ys) = length ys" for ys
    by (simp add: cluster_chunk_def assms(2))
  have a: "cluster_in_chunks fit df chunk_size eps min_samples
           = Inr (concat (map (cluster_chunk fit eps min_samples)
                            (contiguous_chunks (nat chunk_size) df)))"
    using assms(1) chunk_loop_concat [OF n, of fit df eps min_samples 0 "[]"]
    by (simp add: cluster_in_chunks_def)
  have b: "length (concat (map (cluster_chunk fit eps min_samples)
                            (contiguous_chunks (nat chunk_size) df))) = length df"
    using len n by (rule length_concat_chunks)
  have c: "\<forall>i < length df.
      concat (map (cluster_chunk fit eps min_samples) (contiguous_chunks (nat chunk_size) df)) ! i
        = cluster_chunk fit eps min_samples
            (iloc df (i div nat chunk_size * nat chunk_size)
                     (i div nat chunk_size * nat chunk_size + nat chunk_size))
          ! (i mod nat chunk_size)"
    using nth_concat_chunks [of "cluster_chunk fit eps min_samples" "nat chunk_size", OF len n]
    by (simp add: iloc_def)
  from a b c show ?thesis by blast
qed

theorem cluster_in_chunks_one_label_per_row_witness:
  "cluster_in_chunks index_labels five_rows 2 0.01 10 = Inr [0, 1, 0, 1, 0]
   \<and> length five_rows = 5
   \<and> length (contiguous_chunks 2 five_rows) = 3
   \<and> length (last (contiguous_chunks 2 five_rows)) = 1"
proof -
  have l: "length (index_labels 0.01 10 points) = length points" for points
    by (simp add: index_labels_def)
  have "cluster_in_chunks index_labels five_rows 2 0.01 10 = Inr [0, 1, 0, 1, 0]"
    by (simp add: cluster_in_chunks_def chunk_loop.simps five_rows_def cluster_chunk_def
        index_labels_def iloc_def)
  with cluster_in_chunks_one_label_per_row [of 2 index_labels "0.01" 10 five_rows, OF _ l]
  show ?thesis
    by (simp add: contiguous_chunks.simps five_rows_def)
qed

subsection \<open>Class imbalance\<close>

lemma resample_without_replacement:
  assumes perm: "mset (shuffle (length arr)) = mset [0..<length arr]"
    and le: "k \<le> length arr" and pos: "1 \<le> k"
  shows "\<exists>out. resample shuffle arr k = Inr out \<and> length out = k
           \<and> set out \<subseteq> set arr \<and> mset out \<subseteq># mset arr"
proof -
  let ?idx = "take k (shuffle (length arr))"
  let ?out = "map (\<lambda>i. arr ! i) ?idx"
  have len: "length (shuffle (length arr)) = length arr"
    using perm by (metis size_mset length_upt diff_zero)
  have sub: "mset ?idx \<subseteq># mset [0..<length arr]"
    using perm by (metis mset_subset_eq_add_left union_code append_take_drop_id mset_append)
  have "image_mset (\<lambda>i. arr ! i) (mset ?idx) \<subseteq># image_mset (\<lambda>i. arr ! i) (mset [0..<length arr])"
    using sub by (rule image_mset_subseteq_mono)
  moreover have "image_mset (\<lambda>i. arr ! i) (mset [0..<length arr]) = mset arr"
    by (metis map_nth mset_map)
  ultimately have m: "mset ?out \<subseteq># mset arr"
    by (simp only: mset_map)
  then have s: "set ?out \<subseteq> set arr"
    by (metis set_mset_mono set_mset_mset)
  have "resample shuffle arr k = Inr ?out" using le pos by (simp add: resample_def)
  moreover have "length ?out = k" using le len by simp
  ultimately show ?thesis using m s by blast
qed

text \<open>
  C5 (amended). When the dataset has at least one non-Low record and at least as many Low
  records as non-Low records, the Low class is downsampled without replacement: the balanced
  output holds exactly as many Low records as the dataset has non-Low records, every sampled
  Low record is a Low record of the dataset taken at most as often as it occurs there, and
  the non-Low records are carried into the output unchanged and in order. When the dataset
  has fewer Low than non-Low records, or no non-Low record at all, the step raises an error
  and produces no balanced output.
\<close>

theorem downsample_majority_class:
  assumes "mset (shuffle (length (filter (\<lambda>r. severity_category r = ''Low'') df)))
             = mset [0..<length (filter (\<lambda>r. severity_category r = ''Low'') df)]"
  shows "(1 \<le> length (filter (\<lambda>r. severity_category r \<noteq> ''Low'') df)
          \<and> length (filter (\<lambda>r. severity_category r \<noteq> ''Low'') df)
            \<le> length (filter (\<lambda>r. severity_category r = ''Low'') df) \<longrightarrow>
          (\<exists>out. df_balanced shuffle df = Inr out
             \<and> length (filter (\<lambda>r. severity_category r = ''Low'') out)
                 = length (filter (\<lambda>r. severity_category r \<noteq> ''Low'') df)
             \<and> filter (\<lambda>r. severity_category r \<noteq> ''Low'') out
                 = filter (\<lambda>r. severity_category r \<noteq> ''Low'') df
             \<and> mset (filter (\<lambda>r. severity_category r = ''Low'') out)
                 \<subseteq># mset (filter (\<lambda>r. severity_category r = ''Low'') df)))
       \<and> (length (filter (\<lambda>r. severity_category r = ''Low'') df)
            < length (filter (\<lambda>r. severity_category r \<noteq> ''Low'') df) \<longrightarrow>
          df_balanced shuffle df = Inl ValueError)
       \<and> (length (filter (\<lambda>r. severity_category r \<noteq> ''Low'') df) = 0 \<longrightarrow>
          df_balanced shuffle df = Inl InvalidParameterError)"
proof (intro conjI impI)
  let ?low = "\<lambda>r. severity_category r = ''Low''"
  let ?other = "\<lambda>r. severity_category r \<noteq> ''Low''"
  assume both: "1 \<le> length (filter ?other df)
          \<and> length (filter ?other df) \<le> length (filter ?low df)"
  then have le: "length (filter ?other df) \<le> length (filter ?low df)"
    and pos: "1 \<le> length (filter ?other df)" by simp_all
  from resample_without_replacement
    [of shuffle "filter ?low df" "length (filter ?other df)", OF assms le pos]
  obtain down where d: "resample shuffle (filter ?low df) (length (filter ?other df)) = Inr down"
    "length down = length (filter ?other df)" "set down \<subseteq> set (filter ?low df)"
    "mset down \<subseteq># mset (filter ?low df)" by blast
  from d(3) have alllow: "\<forall>r\<in>set down. ?low r" by auto
  then have f1: "filter ?low down = down" by (simp add: filter_id_conv)
  from alllow have f2: "filter ?other down = []" by (simp add: filter_empty_conv)
  have out: "df_balanced shuffle df = Inr (down @ filter ?other df)"
    by (simp add: df_balanced_def d(1))
  have "length (filter ?low (down @ filter ?other df)) = length (filter ?other df)"
    by (simp add: f1 d(2))
  moreover have "filter ?other (down @ filter ?other df) = filter ?other df"
    by (simp add: f2)
  moreover have "mset (filter ?low (down @ filter ?other df)) \<subseteq># mset (filter ?low df)"
    using d(4) by (simp add: f1)
  ultimately show "\<exists>out. df_balanced shuffle df = Inr out
             \<and> length (filter ?low out) = length (filter ?other df)
             \<and> filter ?other out = filter ?other df
             \<and> mset (filter ?low out) \<subseteq># mset (filter ?low df)"
    using out by blast
next
  assume "length (filter (\<lambda>r. severity_category r = ''Low'') df)
            < length (filter (\<lambda>r. severity_category r \<noteq> ''Low'') df)"
  then show "df_balanced shuffle df = Inl ValueError"
    by (auto simp add: df_balanced_def resample_def Let_def)
next
  assume "length (filter (\<lambda>r. severity_category r \<noteq> ''Low'') df) = 0"
  then show "df_balanced shuffle df = Inl InvalidParameterError"
    by (simp add: df_balanced_def resample_def Let_def)
qed

lemma example_categories:
  "severity_category (blank_row\<lparr>latitude := x\<rparr>) = ''Low''"
  "severity_category blank_row = ''Low''"
  "severity_category row_medium = ''Medium''"
  "severity_category row_high = ''High''"
  by (simp_all add: severity_category_def severity_score_def total_deaths_def
      total_injuries_def sum64_def wrap64_def blank_row_def row_medium_def row_high_def)

theorem downsample_majority_class_witness:
  "df_balanced reversed_order
     [blank_row\<lparr>latitude := 1\<rparr>, row_medium, blank_row\<lparr>latitude := 2\<rparr>, row_high,
      blank_row\<lparr>latitude := 3\<rparr>]
   = Inr [blank_row\<lparr>latitude := 3\<rparr>, blank_row\<lparr>latitude := 2\<rparr>, row_medium, row_high]
   \<and> mset (reversed_order 3) = mset [0..<3]"
proof -
  have p: "mset (reversed_order n) = mset [0..<n]" for n
    by (simp add: reversed_order_def)
  have "df_balanced reversed_order
     [blank_row\<lparr>latitude := 1\<rparr>, row_medium, blank_row\<lparr>latitude := 2\<rparr>, row_high,
      blank_row\<lparr>latitude := 3\<rparr>]
   = Inr [blank_row\<lparr>latitude := 3\<rparr>, blank_row\<lparr>latitude := 2\<rparr>, row_medium, row_high]"
    by (simp add: df_balanced_def resample_def example_categories reversed_order_def)
  with downsample_majority_class [of reversed_order
     "[blank_row\<lparr>latitude := 1\<rparr>, row_medium, blank_row\<lparr>latitude := 2\<rparr>, row_high,
      blank_row\<lparr>latitude := 3\<rparr>]", OF p] p [of 3]
  show ?thesis by simp
qed

text \<open>
  The specification's sentence does not hold on a dataset with one Low record and two
  non-Low records: two Low records cannot be drawn without replacement from one, and the
  step raises. It raises as well on a dataset of Low records only, where it is asked for
  zero rows.
\<close>

theorem downsample_counterexample:
  "df_balanced reversed_order [blank_row, row_medium, row_high] = Inl ValueError
   \<and> length (filter (\<lambda>r. severity_category r = ''Low'') [blank_row, row_medium, row_high]) = 1
   \<and> length (filter (\<lambda>r. severity_category r \<noteq> ''Low'') [blank_row, row_medium, row_high]) = 2
   \<and> df_balanced reversed_order [blank_row, blank_row, blank_row] = Inl InvalidParameterError"
  by (simp add: df_balanced_def resample_def example_categories)

subsection \<open>Location grid and crash rate\<close>

lemma map_of_add_to_group:
  "map_of (add_to_group k v groups) k' =
     (if k' = k then Some ((case map_of groups k of None \<Rightarrow> [] | Some vs \<Rightarrow> vs) @ [v])
      else map_of groups k')"
  by (induction groups) auto

lemma map_of_foldl_groups:
  "map_of (foldl (\<lambda>groups r. add_to_group (key r) (column r) groups) groups df) k =
     (case map_of groups k of
        None \<Rightarrow> (if filter (\<lambda>r. key r = k) df = [] then None
                  else Some (map column (filter (\<lambda>r. key r = k) df)))
      | Some vs \<Rightarrow> Some (vs @ map column (filter (\<lambda>r. key r = k) df)))"
proof (induction df arbitrary: groups)
  case Nil
  show ?case by (simp split: option.split)
next
  case (Cons r df)
  show ?case
    by (simp add: Cons.IH map_of_add_to_group split: option.split)
qed

lemma map_of_groupby:
  "map_of (groupby key column df) k =
     (if filter (\<lambda>r. key r = k) df = [] then None
      else Some (map column (filter (\<lambda>r. key r = k) df)))"
  unfolding groupby_def by (simp add: map_of_foldl_groups)

lemma transform_mean_nth:
  assumes "i < length df"
  shows "transform_mean key column df ! i =
           Some (of_int (sum_list (map column (filter (\<lambda>r. key r = key (df ! i)) df)))
                 / of_nat (length (filter (\<lambda>r. key r = key (df ! i)) df)))"
    and "0 < length (filter (\<lambda>r. key r = key (df ! i)) df)"
proof -
  have "df ! i \<in> set (filter (\<lambda>r. key r = key (df ! i)) df)"
    using assms by simp
  then have ne: "filter (\<lambda>r. key r = key (df ! i)) df \<noteq> []"
    by (metis empty_iff empty_set)
  then show "0 < length (filter (\<lambda>r. key r = key (df ! i)) df)" by simp
  show "transform_mean key column df ! i =
           Some (of_int (sum_list (map column (filter (\<lambda>r. key r = key (df ! i)) df)))
                 / of_nat (length (filter (\<lambda>r. key r = key (df ! i)) df)))"
    using assms ne by (simp add: transform_mean_def map_of_groupby mean_def)
qed

lemma rint_close: "\<bar>of_int (rint y) - y\<bar> \<le> 1 / 2"
proof -
  have "of_int \<lfloor>y\<rfloor> \<le> y" "y < of_int \<lfloor>y\<rfloor> + 1" by linarith+
  then show ?thesis by (auto simp: rint_def Let_def)
qed

lemma rint_sign:
  shows "y < 0 \<Longrightarrow> rint y \<le> 0" and "0 \<le> y \<Longrightarrow> 0 \<le> rint y"
proof -
  have c: "\<bar>of_int (rint y) - y\<bar> \<le> 1 / 2" by (rule rint_close)
  show "rint y \<le> 0" if "y < 0"
  proof -
    from c that have "of_int (rint y) < (1::real)" by linarith
    then have "rint y < 1" by (simp only: of_int_less_1_iff)
    then show ?thesis by simp
  qed
  show "0 \<le> rint y" if "0 \<le> y"
  proof -
    from c that have "(- 1::real) < of_int (rint y)" by linarith
    then have "- 1 < rint y" by linarith
    then show ?thesis by simp
  qed
qed

lemma round3_value: "float64_value (round3 x) = of_int (rint (x * 1000)) / 1000"
proof (cases "x < 0")
  case True
  then have "x * 1000 < 0" by simp
  then have "rint (x * 1000) \<le> 0" by (rule rint_sign)
  with True show ?thesis by (simp add: round3_def float64_value_def)
next
  case False
  then have "0 \<le> x * 1000" by simp
  then have "0 \<le> rint (x * 1000)" by (rule rint_sign)
  with False show ?thesis by (simp add: round3_def float64_value_def)
qed

text \<open>
  C8. The location grid of a record is the key formed from its latitude and longitude, each
  rounded to three decimals and printed: the rounded value is a whole number of thousandths,
  differs from the coordinate by at most half a thousandth and keeps the coordinate's sign.
  The crash rate has one value per record; the value of a record is the arithmetic mean of
  the severity score over all records of the dataset with the same location grid, and
  records with the same location grid carry the same crash rate.
\<close>

theorem crash_rate_is_cell_mean:
  "length (crash_rate df) = length df
   \<and> (\<forall>i<length df.
        crash_rate df ! i =
          Some (of_int (sum_list (map severity_score
                                   (filter (\<lambda>r. location_grid r = location_grid (df ! i)) df)))
                / of_nat (length (filter (\<lambda>r. location_grid r = location_grid (df ! i)) df)))
        \<and> 0 < length (filter (\<lambda>r. location_grid r = location_grid (df ! i)) df))
   \<and> (\<forall>i<length df. \<forall>j<length df.
        location_grid (df ! i) = location_grid (df ! j) \<longrightarrow> crash_rate df ! i = crash_rate df ! j)
   \<and> location_grid r
       = float64_str (round3 (latitude r)) @ '', '' @ float64_str (round3 (longitude r))
   \<and> float64_value (round3 x) * 1000 = of_int (rint (x * 1000))
   \<and> \<bar>float64_value (round3 x) - x\<bar> \<le> 1 / 2000
   \<and> is_negative (round3 x) = (x < 0)"
proof -
  have a: "length (crash_rate df) = length df"
    by (simp add: crash_rate_def transform_mean_def)
  have b: "\<forall>i<length df.
        crash_rate df ! i =
          Some (of_int (sum_list (map severity_score
                                   (filter (\<lambda>r. location_grid r = location_grid (df ! i)) df)))
                / of_nat (length (filter (\<lambda>r. location_grid r = location_grid (df ! i)) df)))
        \<and> 0 < length (filter (\<lambda>r. location_grid r = location_grid (df ! i)) df)"
    unfolding crash_rate_def using transform_mean_nth(1) [of _ df location_grid severity_score]
      transform_mean_nth(2) [of _ df location_grid]
    by blast
  have c: "\<forall>i<length df. \<forall>j<length df.
        location_grid (df ! i) = location_grid (df ! j) \<longrightarrow> crash_rate df ! i = crash_rate df ! j"
    using b by simp
  have d: "location_grid r
       = float64_str (round3 (latitude r)) @ '', '' @ float64_str (round3 (longitude r))"
    by (simp add: location_grid_def lat_rounded_def lon_rounded_def)
  have e: "float64_value (round3 x) * 1000 = of_int (rint (x * 1000))"
    by (simp add: round3_value)
  have "\<bar>of_int (rint (x * 1000)) - x * 1000\<bar> \<le> 1 / 2" by (rule rint_close)
  then have f: "\<bar>float64_value (round3 x) - x\<bar> \<le> 1 / 2000"
    by (simp add: round3_value abs_le_iff field_simps)
  have g: "is_negative (round3 x) = (x < 0)" by (simp add: round3_def)
  from a b c d e f g show ?thesis by blast
qed

lemma grid_rows_location_grid:
  "map location_grid grid_rows = [''40.712, -74.006'', ''40.8, -73.95'', ''40.712, -74.006'']"
  by (simp add: location_grid_def lat_rounded_def lon_rounded_def round3_def rint_def
      float64_str_def frac_digits.simps nat_str.simps digit_char_def grid_rows_def blank_row_def
      Let_def)

lemma grid_rows_severity_score: "map severity_score grid_rows = [7, 3, 2]"
  by (simp add: severity_score_def total_deaths_def total_injuries_def sum64_def wrap64_def
      grid_rows_def blank_row_def)

lemma printing_examples:
  "float64_str (round3 40.71249) = ''40.712''"
  "float_str 40.71249 = ''40.71249''"
  "location_grid (blank_row\<lparr>latitude := - 0.0001, longitude := 10\<rparr>) = ''-0.0, 10.0''"
  "location_grid (blank_row\<lparr>latitude := 0.0001, longitude := 10\<rparr>) = ''0.0, 10.0''"
  by (simp_all add: location_grid_def lat_rounded_def lon_rounded_def round3_def rint_def
      float_str_def float64_of_def float64_str_def frac_digits.simps nat_str.simps digit_char_def
      blank_row_def Let_def)

theorem crash_rate_is_cell_mean_witness:
  "crash_rate grid_rows = [Some (9 / 2), Some 3, Some (9 / 2)]
   \<and> map location_grid grid_rows = [''40.712, -74.006'', ''40.8, -73.95'', ''40.712, -74.006'']
   \<and> map severity_score grid_rows = [7, 3, 2]
   \<and> float64_str (round3 40.71249) = ''40.712''
   \<and> float_str 40.71249 = ''40.71249''
   \<and> location_grid (blank_row\<lparr>latitude := - 0.0001, longitude := 10\<rparr>) = ''-0.0, 10.0''
   \<and> location_grid (blank_row\<lparr>latitude := 0.0001, longitude := 10\<rparr>) = ''0.0, 10.0''"
proof -
  have g: "map location_grid grid_rows = [''40.712, -74.006'', ''40.8, -73.95'', ''40.712, -74.006'']"
    by (rule grid_rows_location_grid)
  have s: "map severity_score grid_rows = [7, 3, 2]"
    by (rule grid_rows_severity_score)
  have l: "length grid_rows = 3" by (simp add: grid_rows_def)
  have k: "location_grid (grid_rows ! 0) = ''40.712, -74.006''"
    "location_grid (grid_rows ! Suc 0) = ''40.8, -73.95''"
    "location_grid (grid_rows ! 2) = ''40.712, -74.006''"
    using g by (simp_all add: grid_rows_def)
  have v: "severity_score (grid_rows ! 0) = 7" "severity_score (grid_rows ! Suc 0) = 3"
    "severity_score (grid_rows ! 2) = 2"
    using s by (simp_all add: grid_rows_def)
  have f0: "filter (\<lambda>r. location_grid r = ''40.712, -74.006'') grid_rows = [grid_rows ! 0, grid_rows ! 2]"
    and f1: "filter (\<lambda>r. location_grid r = ''40.8, -73.95'') grid_rows = [grid_rows ! Suc 0]"
    using k by (simp_all add: grid_rows_def)
  note T = crash_rate_is_cell_mean [of grid_rows blank_row 0]
  from T l have len: "length (crash_rate grid_rows) = 3" by simp
  from T l have each: "crash_rate grid_rows ! i =
          Some (of_int (sum_list (map severity_score
                  (filter (\<lambda>r. location_grid r = location_grid (grid_rows ! i)) grid_rows)))
                / of_nat (length (filter (\<lambda>r. location_grid r = location_grid (grid_rows ! i))
                                    grid_rows)))"
    if "i < 3" for i using that by simp
  have c0: "crash_rate grid_rows ! 0 = Some (9 / 2)"
    using each [of 0] by (simp add: k f0 v)
  have c1: "crash_rate grid_rows ! Suc 0 = Some 3"
    using each [of "Suc 0"] by (simp add: k f1 v)
  have c2: "crash_rate grid_rows ! 2 = Some (9 / 2)"
    using each [of 2] by (simp add: k f0 v)
  from len c0 c1 c2 have cr: "crash_rate grid_rows = [Some (9 / 2), Some 3, Some (9 / 2)]"
    by (simp add: list_eq_iff_nth_eq less_Suc_eq numeral_3_eq_3 numeral_2_eq_2)
  show ?thesis by (intro conjI cr g s printing_examples)
qed

subsection \<open>Feature alignment\<close>

lemma split_from_Nil: "split_from sep piece [] = [piece]"
  by (subst split_from.simps) simp

lemma split_from_sep:
  "sep \<noteq> [] \<Longrightarrow> prefix sep s \<Longrightarrow>
   split_from sep piece s = piece # split_from sep [] (drop (length sep) s)"
  by (subst split_from.simps) auto

lemma split_from_char:
  "\<not> prefix sep (c # s) \<Longrightarrow> split_from sep piece (c # s) = split_from sep (piece @ [c]) s"
  by (subst split_from.simps) simp

lemma split_from_not_Nil: "split_from sep piece s \<noteq> []"
proof (induction sep piece s rule: split_from.induct)
  case (1 sep piece s)
  then show ?case by (subst split_from.simps) auto
qed

lemma split_from_no_sep: "\<not> has_sep sep s \<Longrightarrow> split_from sep piece s = [piece @ s]"
proof (induction s arbitrary: piece)
  case Nil
  show ?case by (simp add: split_from_Nil)
next
  case (Cons c s)
  then show ?case by (simp add: split_from_char)
qed

lemma py_split_num: "prefix ''num__'' f \<Longrightarrow> 2 \<le> length (py_split ''__'' f)"
proof -
  assume "prefix ''num__'' f"
  then obtain r where f: "f = ''num__'' @ r" by (auto simp: prefix_def)
  have "py_split ''__'' f = ''num'' # split_from ''__'' [] r"
    by (simp add: f py_split_def split_from_char split_from_sep)
  moreover have "split_from ''__'' [] r \<noteq> []" by (rule split_from_not_Nil)
  ultimately show ?thesis by (cases "split_from ''__'' [] r") simp_all
qed

lemma py_split_one_hot:
  "\<not> has_sep ''__'' name \<Longrightarrow> py_split ''__'' (''cat__'' @ name) = [''cat'', name]"
  by (simp add: py_split_def split_from_char split_from_sep split_from_no_sep)

lemma rsplit_last_append:
  "c \<notin> set w \<Longrightarrow> rsplit_last c (x @ c # w) = w"
proof -
  assume "c \<notin> set w"
  then have "takeWhile (\<lambda>y. y \<noteq> c) (rev w @ c # rev x)
      = rev w @ takeWhile (\<lambda>y. y \<noteq> c) (c # rev x)"
    by (intro takeWhile_append2) auto
  then show ?thesis by (simp add: rsplit_last_def)
qed

lemma rsplit1_head_append:
  "c \<notin> set w \<Longrightarrow> rsplit1_head c (x @ c # w) = x"
proof -
  assume "c \<notin> set w"
  then have "dropWhile (\<lambda>y. y \<noteq> c) (rev w @ c # rev x) = dropWhile (\<lambda>y. y \<noteq> c) (c # rev x)"
    by (intro dropWhile_append2) auto
  then show ?thesis by (simp add: rsplit1_head_def)
qed

lemma map_fst_at_set: "map fst (at_set al f v) = map fst al"
  by (induction al) (auto simp: at_set_def)

lemma map_of_at_set_option:
  "map_of (at_set al f v) g =
     (if g = f then map_option (\<lambda>x. v) (map_of al g) else map_of al g)"
  by (induction al) (auto simp: at_set_def case_prod_unfold)

lemma map_of_at_set:
  "map_of (at_set al f v) g = (if g = f \<and> f \<in> fst ` set al then Some v else map_of al g)"
proof (cases "map_of al f")
  case None
  then have "f \<notin> fst ` set al" by (simp add: map_of_eq_None_iff)
  with None show ?thesis by (simp add: map_of_at_set_option)
next
  case (Some x)
  then have "f \<in> fst ` set al" by (metis map_of_eq_None_iff option.distinct(1))
  with Some show ?thesis by (simp add: map_of_at_set_option)
qed

lemma fst_set_at_set: "fst ` set (at_set al f v) = fst ` set al"
  using map_fst_at_set [of al f v] by (metis list.set_map)

lemma map_numerical_result:
  assumes "\<forall>f\<in>set nums. 2 \<le> length (py_split ''__'' f)"
    and "\<forall>f\<in>set nums. \<forall>s. map_of inp (py_split ''__'' f ! 1) = Some s \<longrightarrow> to_float s \<noteq> None"
  shows "\<exists>al'. map_numerical to_float inp nums al = Inr al' \<and> map fst al' = map fst al
     \<and> (\<forall>g. map_of al' g =
           (if g \<in> set nums \<and> g \<in> fst ` set al \<and> map_of inp (py_split ''__'' g ! 1) \<noteq> None
            then to_float (the (map_of inp (py_split ''__'' g ! 1)))
            else map_of al g))"
  using assms
proof (induction nums arbitrary: al)
  case Nil
  show ?case by simp
next
  case (Cons f nums)
  from Cons.prems have len: "\<not> length (py_split ''__'' f) < 2" by simp
  from Cons.prems have rest:
    "\<forall>f\<in>set nums. 2 \<le> length (py_split ''__'' f)"
    "\<forall>f\<in>set nums. \<forall>s. map_of inp (py_split ''__'' f ! 1) = Some s \<longrightarrow> to_float s \<noteq> None"
    by simp_all
  show ?case
  proof (cases "map_of inp (py_split ''__'' f ! 1)")
    case None
    from Cons.IH [OF rest, of al] obtain al' where
      "map_numerical to_float inp nums al = Inr al'" "map fst al' = map fst al"
      "\<forall>g. map_of al' g =
           (if g \<in> set nums \<and> g \<in> fst ` set al \<and> map_of inp (py_split ''__'' g ! 1) \<noteq> None
            then to_float (the (map_of inp (py_split ''__'' g ! 1)))
            else map_of al g)" by blast
    with None len show ?thesis by (auto simp: Let_def)
  next
    case (Some s)
    with Cons.prems obtain v where v: "to_float s = Some v" by auto
    from Cons.IH [OF rest, of "at_set al f v"] obtain al' where
      "map_numerical to_float inp nums (at_set al f v) = Inr al'"
      "map fst al' = map fst (at_set al f v)"
      "\<forall>g. map_of al' g =
           (if g \<in> set nums \<and> g \<in> fst ` set (at_set al f v)
               \<and> map_of inp (py_split ''__'' g ! 1) \<noteq> None
            then to_float (the (map_of inp (py_split ''__'' g ! 1)))
            else map_of (at_set al f v) g)" by blast
    with Some v len show ?thesis
      by (auto simp: Let_def map_fst_at_set fst_set_at_set map_of_at_set)
  qed
qed

lemma map_categorical_result:
  assumes "\<forall>f\<in>set cats. length (py_split ''__'' f) = 2"
  shows "\<exists>al'. map_categorical inp cats al = Inr al' \<and> map fst al' = map fst al
     \<and> (\<forall>g. map_of al' g =
           (if g \<in> set cats \<and> g \<in> fst ` set al
               \<and> map_of inp (rsplit1_head (CHR ''_'') (py_split ''__'' g ! 1))
                   = Some (rsplit_last (CHR ''_'') g)
            then Some 1 else map_of al g))"
  using assms
proof (induction cats arbitrary: al)
  case Nil
  show ?case by simp
next
  case (Cons f cats)
  from Cons.prems have "length (py_split ''__'' f) = 2" by simp
  then obtain pre name where sp: "py_split ''__'' f = [pre, name]"
    by (auto simp: length_Suc_conv numeral_2_eq_2)
  from Cons.prems have rest: "\<forall>f\<in>set cats. length (py_split ''__'' f) = 2" by simp
  show ?case
  proof (cases "map_of inp (rsplit1_head (CHR ''_'') name) = Some (rsplit_last (CHR ''_'') f)")
    case True
    from Cons.IH [OF rest, of "at_set al f 1"] obtain al' where
      "map_categorical inp cats (at_set al f 1) = Inr al'"
      "map fst al' = map fst (at_set al f 1)"
      "\<forall>g. map_of al' g =
           (if g \<in> set cats \<and> g \<in> fst ` set (at_set al f 1)
               \<and> map_of inp (rsplit1_head (CHR ''_'') (py_split ''__'' g ! 1))
                   = Some (rsplit_last (CHR ''_'') g)
            then Some 1 else map_of (at_set al f 1) g)" by blast
    with True sp show ?thesis
      by (auto simp: Let_def map_fst_at_set fst_set_at_set map_of_at_set)
  next
    case False
    from Cons.IH [OF rest, of al] obtain al' where
      "map_categorical inp cats al = Inr al'" "map fst al' = map fst al"
      "\<forall>g. map_of al' g =
           (if g \<in> set cats \<and> g \<in> fst ` set al
               \<and> map_of inp (rsplit1_head (CHR ''_'') (py_split ''__'' g ! 1))
                   = Some (rsplit_last (CHR ''_'') g)
            then Some 1 else map_of al g)" by blast
    with False sp show ?thesis by (auto simp: Let_def)
  qed
qed

lemma map_of_zero_row:
  "map_of (map (\<lambda>f. (f, 0::real)) fs) g = (if g \<in> set fs then Some 0 else None)"
  by (induction fs) auto

lemma not_both_prefixes: "prefix ''num__'' f \<Longrightarrow> \<not> prefix ''cat__'' f"
  by (auto simp: prefix_def)

lemma create_aligned_input_result:
  assumes cat: "\<forall>f\<in>set fs. prefix ''cat__'' f \<longrightarrow> length (py_split ''__'' f) = 2"
    and num: "\<forall>f\<in>set fs. prefix ''num__'' f \<longrightarrow>
         (\<forall>s. map_of inp (py_split ''__'' f ! 1) = Some s \<longrightarrow> to_float s \<noteq> None)"
  shows "\<exists>aligned. create_aligned_input to_float inp fs = Inr aligned
     \<and> map fst aligned = fs
     \<and> (\<forall>f\<in>set fs. map_of aligned f = Some (
           if prefix ''num__'' f
           then (case map_of inp (py_split ''__'' f ! 1) of
                   None \<Rightarrow> 0 | Some s \<Rightarrow> the (to_float s))
           else if prefix ''cat__'' f
           then (if map_of inp (rsplit1_head (CHR ''_'') (py_split ''__'' f ! 1))
                      = Some (rsplit_last (CHR ''_'') f) then 1 else 0)
           else 0))"
proof -
  let ?nums = "filter (prefix ''num__'') fs"
  let ?cats = "filter (prefix ''cat__'') fs"
  let ?al0 = "map (\<lambda>f. (f, 0::real)) fs"
  have n1: "\<forall>f\<in>set ?nums. 2 \<le> length (py_split ''__'' f)"
    by (simp add: py_split_num)
  have n2: "\<forall>f\<in>set ?nums. \<forall>s. map_of inp (py_split ''__'' f ! 1) = Some s \<longrightarrow> to_float s \<noteq> None"
    using num by auto
  from map_numerical_result [OF n1 n2, of ?al0] obtain al1 where
    r1: "map_numerical to_float inp ?nums ?al0 = Inr al1" and f1: "map fst al1 = map fst ?al0"
    and m1: "\<forall>g. map_of al1 g =
           (if g \<in> set ?nums \<and> g \<in> fst ` set ?al0 \<and> map_of inp (py_split ''__'' g ! 1) \<noteq> None
            then to_float (the (map_of inp (py_split ''__'' g ! 1)))
            else map_of ?al0 g)" by blast
  have c1: "\<forall>f\<in>set ?cats. length (py_split ''__'' f) = 2" using cat by simp
  from map_categorical_result [OF c1, of inp al1] obtain al2 where
    r2: "map_categorical inp ?cats al1 = Inr al2" and f2: "map fst al2 = map fst al1"
    and m2: "\<forall>g. map_of al2 g =
           (if g \<in> set ?cats \<and> g \<in> fst ` set al1
               \<and> map_of inp (rsplit1_head (CHR ''_'') (py_split ''__'' g ! 1))
                   = Some (rsplit_last (CHR ''_'') g)
            then Some 1 else map_of al1 g)" by blast
  have dom0: "fst ` set ?al0 = set fs" by (simp add: image_comp comp_def)
  have dom1: "fst ` set al1 = set fs" using f1 by (metis list.set_map dom0)
  have res: "create_aligned_input to_float inp fs = Inr al2"
    by (simp add: create_aligned_input_def r1 r2)
  have names: "map fst al2 = fs" using f1 f2 by (simp add: comp_def)
  have vals: "\<forall>f\<in>set fs. map_of al2 f = Some (
           if prefix ''num__'' f
           then (case map_of inp (py_split ''__'' f ! 1) of
                   None \<Rightarrow> 0 | Some s \<Rightarrow> the (to_float s))
           else if prefix ''cat__'' f
           then (if map_of inp (rsplit1_head (CHR ''_'') (py_split ''__'' f ! 1))
                      = Some (rsplit_last (CHR ''_'') f) then 1 else 0)
           else 0)"
  proof
    fix f assume f: "f \<in> set fs"
    show "map_of al2 f = Some (
           if prefix ''num__'' f
           then (case map_of inp (py_split ''__'' f ! 1) of
                   None \<Rightarrow> 0 | Some s \<Rightarrow> the (to_float s))
           else if prefix ''cat__'' f
           then (if map_of inp (rsplit1_head (CHR ''_'') (py_split ''__'' f ! 1))
                      = Some (rsplit_last (CHR ''_'') f) then 1 else 0)
           else 0)"
    proof (cases "prefix ''num__'' f")
      case True
      then have nc: "\<not> prefix ''cat__'' f" by (rule not_both_prefixes)
      have "map_of al2 f = map_of al1 f" using m2 nc by simp
      also have "\<dots> = Some (case map_of inp (py_split ''__'' f ! 1) of
                   None \<Rightarrow> 0 | Some s \<Rightarrow> the (to_float s))"
      proof (cases "map_of inp (py_split ''__'' f ! 1)")
        case None
        then show ?thesis using m1 f by (simp add: map_of_zero_row)
      next
        case (Some s)
        with num f True obtain v where "to_float s = Some v" by auto
        with Some show ?thesis using m1 f True dom0 by simp
      qed
      finally show ?thesis using True by simp
    next
      case False
      have a1: "map_of al1 f = Some 0" using m1 f False by (simp add: map_of_zero_row)
      show ?thesis using m2 f False a1 dom1 by simp
    qed
  qed
  from res names vals show ?thesis by blast
qed

lemma has_sep_sublist: "sep \<noteq> [] \<Longrightarrow> has_sep sep s = sublist sep s"
  by (induction s) (simp_all add: sublist_Cons_right)

lemma has_sep_drop: "has_sep sep s \<Longrightarrow> \<exists>i<length s. prefix sep (drop i s)"
proof (induction s)
  case Nil
  then show ?case by simp
next
  case (Cons c s)
  show ?case
  proof (cases "prefix sep (c # s)")
    case True
    then have "0 < length (c # s) \<and> prefix sep (drop 0 (c # s))" by simp
    then show ?thesis by blast
  next
    case False
    with Cons obtain i where "i < length s" "prefix sep (drop i s)" by auto
    then have "Suc i < length (c # s) \<and> prefix sep (drop (Suc i) (c # s))" by simp
    then show ?thesis by blast
  qed
qed

lemma split_from_pieces:
  "sep \<noteq> [] \<Longrightarrow> \<forall>i<length piece. \<not> prefix sep (drop i (piece @ s)) \<Longrightarrow>
   p \<in> set (split_from sep piece s) \<Longrightarrow> \<not> has_sep sep p"
proof (induction sep piece s rule: split_from.induct)
  case (1 sep piece s)
  have piece_ok: "\<not> has_sep sep piece"
  proof
    assume "has_sep sep piece"
    then obtain i where i: "i < length piece" "prefix sep (drop i piece)"
      using has_sep_drop by blast
    then have "prefix sep (drop i piece @ s)" by (simp add: prefix_prefix)
    with i(1) "1.prems"(2) show False by simp
  qed
  show ?case
  proof (cases "s = []")
    case True
    with "1.prems"(3) have "p = piece" by (simp add: split_from_Nil)
    with piece_ok show ?thesis by simp
  next
    case ne: False
    show ?thesis
    proof (cases "prefix sep s")
      case True
      with "1.prems"(1,3) have "p = piece \<or> p \<in> set (split_from sep [] (drop (length sep) s))"
        by (simp add: split_from_sep)
      then show ?thesis
      proof
        assume "p = piece"
        with piece_ok show ?thesis by simp
      next
        assume "p \<in> set (split_from sep [] (drop (length sep) s))"
        with "1.IH"(1) [OF ne _ "1.prems"(1)] True "1.prems"(1) show ?thesis by simp
      qed
    next
      case False
      from ne obtain c s' where s: "s = c # s'" by (cases s) auto
      have inv: "\<forall>i<length (piece @ [hd s]). \<not> prefix sep (drop i ((piece @ [hd s]) @ tl s))"
      proof (intro allI impI)
        fix i assume "i < length (piece @ [hd s])"
        then have "i < length piece \<or> i = length piece" by auto
        then show "\<not> prefix sep (drop i ((piece @ [hd s]) @ tl s))"
        proof
          assume "i < length piece"
          with "1.prems"(2) show ?thesis by (simp add: s)
        next
          assume "i = length piece"
          with False show ?thesis by (simp add: s)
        qed
      qed
      from "1.prems"(3) False have "p \<in> set (split_from sep (piece @ [hd s]) (tl s))"
        by (simp add: s split_from_char)
      with "1.IH"(2) [OF ne _ "1.prems"(1) inv] False show ?thesis by simp
    qed
  qed
qed

lemma py_split_pieces: "p \<in> set (py_split ''__'' f) \<Longrightarrow> \<not> has_sep ''__'' p"
  unfolding py_split_def by (rule split_from_pieces [of "''__''" "[]" f p]) simp_all

lemma no_sep_not_feature:
  "\<not> has_sep ''__'' p \<Longrightarrow> \<not> prefix ''num__'' p \<and> \<not> prefix ''cat__'' p"
  by (auto simp: prefix_def)

lemma rsplit1_head_no_sep:
  assumes "\<not> has_sep ''__'' p"
  shows "\<not> has_sep ''__'' (rsplit1_head c p)"
proof -
  have "sublist (rev (rsplit1_head c p)) (rev p)"
  proof (cases "c \<in> set p")
    case True
    have "sublist (tl (dropWhile (\<lambda>x. x \<noteq> c) (rev p))) (dropWhile (\<lambda>x. x \<noteq> c) (rev p))"
      by simp
    also have "sublist (dropWhile (\<lambda>x. x \<noteq> c) (rev p)) (rev p)" by simp
    finally show ?thesis using True by (simp add: rsplit1_head_def)
  next
    case False
    then show ?thesis by (simp add: rsplit1_head_def)
  qed
  then have "sublist (rsplit1_head c p) p" by simp
  moreover from assms have "\<not> sublist ''__'' p" by (simp add: has_sep_sublist)
  ultimately have "\<not> sublist ''__'' (rsplit1_head c p)"
    using sublist_order.order_trans by blast
  then show ?thesis by (simp add: has_sep_sublist)
qed

lemma realign_all_zero:
  assumes cat: "\<forall>f\<in>set fs. prefix ''cat__'' f \<longrightarrow> length (py_split ''__'' f) = 2"
    and pre: "\<forall>f\<in>set fs. prefix ''num__'' f \<or> prefix ''cat__'' f"
    and row: "map fst row = fs"
  shows "\<exists>again. create_aligned_input to_float row fs = Inr again
     \<and> map fst again = fs \<and> (\<forall>f\<in>set fs. map_of again f = Some 0)"
proof -
  have absent: "map_of row p = None" if "\<not> has_sep ''__'' p" for p
  proof -
    from that have "\<not> prefix ''num__'' p \<and> \<not> prefix ''cat__'' p" by (rule no_sep_not_feature)
    with pre have "p \<notin> set fs" by blast
    then have "p \<notin> fst ` set row" using row by (metis list.set_map)
    then show ?thesis by (simp add: map_of_eq_None_iff)
  qed
  have numcol: "map_of row (py_split ''__'' f ! 1) = None" if "prefix ''num__'' f" for f
  proof -
    from that have "2 \<le> length (py_split ''__'' f)" by (rule py_split_num)
    then have "py_split ''__'' f ! 1 \<in> set (py_split ''__'' f)" by simp
    then have "\<not> has_sep ''__'' (py_split ''__'' f ! 1)" by (rule py_split_pieces)
    then show ?thesis by (rule absent)
  qed
  have catcol: "map_of row (rsplit1_head (CHR ''_'') (py_split ''__'' f ! 1)) = None"
    if "f \<in> set fs" "prefix ''cat__'' f" for f
  proof -
    from that cat have "length (py_split ''__'' f) = 2" by blast
    then have "py_split ''__'' f ! 1 \<in> set (py_split ''__'' f)" by simp
    then have "\<not> has_sep ''__'' (py_split ''__'' f ! 1)" by (rule py_split_pieces)
    then have "\<not> has_sep ''__'' (rsplit1_head (CHR ''_'') (py_split ''__'' f ! 1))"
      by (rule rsplit1_head_no_sep)
    then show ?thesis by (rule absent)
  qed
  have num: "\<forall>f\<in>set fs. prefix ''num__'' f \<longrightarrow>
         (\<forall>s. map_of row (py_split ''__'' f ! 1) = Some s \<longrightarrow> to_float s \<noteq> None)"
    using numcol by simp
  from create_aligned_input_result [OF cat num] obtain again where
    r: "create_aligned_input to_float row fs = Inr again" and n: "map fst again = fs"
    and v: "\<forall>f\<in>set fs. map_of again f = Some (
           if prefix ''num__'' f
           then (case map_of row (py_split ''__'' f ! 1) of
                   None \<Rightarrow> 0 | Some s \<Rightarrow> the (to_float s))
           else if prefix ''cat__'' f
           then (if map_of row (rsplit1_head (CHR ''_'') (py_split ''__'' f ! 1))
                      = Some (rsplit_last (CHR ''_'') f) then 1 else 0)
           else 0)" by blast
  have "\<forall>f\<in>set fs. map_of again f = Some 0"
  proof
    fix f assume f: "f \<in> set fs"
    show "map_of again f = Some 0"
    proof (cases "prefix ''num__'' f")
      case True
      with v f numcol [OF True] show ?thesis by simp
    next
      case False
      show ?thesis
      proof (cases "prefix ''cat__'' f")
        case True
        with v f False catcol [OF f True] show ?thesis by simp
      next
        case nc: False
        with v f False show ?thesis by simp
      qed
    qed
  qed
  with r n show ?thesis by blast
qed

text \<open>
  C9 (amended). Given a single input row and the ordered list of distinct post-transform
  feature names, in which every categorical feature name splits at the double underscore
  into exactly two parts and every numerical value present in the row is a number, alignment
  returns a vector over exactly the feature names, in order, that is zero everywhere except:
  each numerical feature whose column is present in the input carries the input value, and a
  categorical feature carries 1 when the input value of its column equals its category. For
  a one-hot column named from a column \<open>c\<close> and a category \<open>w\<close> (no underscore in \<open>w\<close>, no
  double underscore in the name), the column is 1 exactly when the input value of \<open>c\<close> is
  \<open>w\<close>: one column of the group is set when the value matches a known column, and a group
  with no matching value stays zero. Alignment is not idempotent: when every feature name
  begins with the numerical or the categorical prefix, aligning the already-aligned output
  finds none of the columns it reads and returns the all-zero vector.
\<close>

theorem create_aligned_input_columns:
  assumes "distinct feature_names"
    and "\<forall>f\<in>set feature_names. prefix ''cat__'' f \<longrightarrow> length (py_split ''__'' f) = 2"
    and "\<forall>f\<in>set feature_names. prefix ''num__'' f \<longrightarrow>
         (\<forall>s. map_of input_data (py_split ''__'' f ! 1) = Some s \<longrightarrow> to_float s \<noteq> None)"
  shows "\<exists>aligned. create_aligned_input to_float input_data feature_names = Inr aligned
     \<and> map fst aligned = feature_names
     \<and> (\<forall>f\<in>set feature_names. map_of aligned f = Some (
           if prefix ''num__'' f
           then (case map_of input_data (py_split ''__'' f ! 1) of
                   None \<Rightarrow> 0 | Some s \<Rightarrow> the (to_float s))
           else if prefix ''cat__'' f
           then (if map_of input_data (rsplit1_head (CHR ''_'') (py_split ''__'' f ! 1))
                      = Some (rsplit_last (CHR ''_'') f) then 1 else 0)
           else 0))
     \<and> (\<forall>c w. CHR ''_'' \<notin> set w \<and> \<not> has_sep ''__'' (c @ ''_'' @ w)
              \<and> ''cat__'' @ c @ ''_'' @ w \<in> set feature_names \<longrightarrow>
           map_of aligned (''cat__'' @ c @ ''_'' @ w)
             = Some (if map_of input_data c = Some w then 1 else 0))
     \<and> ((\<forall>f\<in>set feature_names. prefix ''num__'' f \<or> prefix ''cat__'' f) \<longrightarrow>
          (\<exists>again. create_aligned_input to_float (astype_str aligned) feature_names = Inr again
             \<and> map fst again = feature_names
             \<and> (\<forall>f\<in>set feature_names. map_of again f = Some 0)))"
proof -
  from create_aligned_input_result [OF assms(2) assms(3)] obtain aligned where
    r: "create_aligned_input to_float input_data feature_names = Inr aligned"
    and n: "map fst aligned = feature_names"
    and v: "\<forall>f\<in>set feature_names. map_of aligned f = Some (
           if prefix ''num__'' f
           then (case map_of input_data (py_split ''__'' f ! 1) of
                   None \<Rightarrow> 0 | Some s \<Rightarrow> the (to_float s))
           else if prefix ''cat__'' f
           then (if map_of input_data (rsplit1_head (CHR ''_'') (py_split ''__'' f ! 1))
                      = Some (rsplit_last (CHR ''_'') f) then 1 else 0)
           else 0)" by blast
  have "map_of aligned (''cat__'' @ c @ ''_'' @ w)
             = Some (if map_of input_data c = Some w then 1 else 0)"
    if w: "CHR ''_'' \<notin> set w" and d: "\<not> has_sep ''__'' (c @ ''_'' @ w)"
      and m: "''cat__'' @ c @ ''_'' @ w \<in> set feature_names" for c w
  proof -
    have sp: "py_split ''__'' (''cat__'' @ c @ ''_'' @ w) = [''cat'', c @ ''_'' @ w]"
      using d by (rule py_split_one_hot)
    have h: "rsplit1_head (CHR ''_'') (c @ ''_'' @ w) = c"
      using rsplit1_head_append [OF w, of c] by simp
    have l: "rsplit_last (CHR ''_'') (''cat__'' @ c @ ''_'' @ w) = w"
      using rsplit_last_append [OF w, of "''cat__'' @ c"] by simp
    have p: "prefix ''cat__'' (''cat__'' @ c @ ''_'' @ w)"
      "\<not> prefix ''num__'' (''cat__'' @ c @ ''_'' @ w)" by simp_all
    from v m have "map_of aligned (''cat__'' @ c @ ''_'' @ w) = Some (
           if prefix ''num__'' (''cat__'' @ c @ ''_'' @ w)
           then (case map_of input_data (py_split ''__'' (''cat__'' @ c @ ''_'' @ w) ! 1) of
                   None \<Rightarrow> 0 | Some s \<Rightarrow> the (to_float s))
           else if prefix ''cat__'' (''cat__'' @ c @ ''_'' @ w)
           then (if map_of input_data
                      (rsplit1_head (CHR ''_'') (py_split ''__'' (''cat__'' @ c @ ''_'' @ w) ! 1))
                      = Some (rsplit_last (CHR ''_'') (''cat__'' @ c @ ''_'' @ w)) then 1 else 0)
           else 0)" by blast
    then show ?thesis unfolding sp l using h p by simp
  qed
  then have oh: "\<forall>c w. CHR ''_'' \<notin> set w \<and> \<not> has_sep ''__'' (c @ ''_'' @ w)
              \<and> ''cat__'' @ c @ ''_'' @ w \<in> set feature_names \<longrightarrow>
           map_of aligned (''cat__'' @ c @ ''_'' @ w)
             = Some (if map_of input_data c = Some w then 1 else 0)" by blast
  have cols: "map fst (astype_str aligned) = feature_names"
    using n by (simp add: astype_str_def case_prod_unfold comp_def)
  have re: "(\<forall>f\<in>set feature_names. prefix ''num__'' f \<or> prefix ''cat__'' f) \<longrightarrow>
          (\<exists>again. create_aligned_input to_float (astype_str aligned) feature_names = Inr again
             \<and> map fst again = feature_names
             \<and> (\<forall>f\<in>set feature_names. map_of again f = Some 0))"
    using realign_all_zero [OF assms(2) _ cols] by blast
  from r n v oh re show ?thesis by blast
qed



theorem create_aligned_input_columns_witness:
  "create_aligned_input float_table example_input example_features
     = Inr [(''num__latitude'', 40.85), (''num__crash_rate'', 0), (''cat__borough_Bronx'', 1),
            (''cat__borough_Staten Island'', 0), (''cat__time_of_day_Morning'', 0),
            (''cat__month_3'', 0)]
   \<and> distinct example_features
   \<and> map_of example_input ''borough'' = Some ''Bronx''
   \<and> \<not> has_sep ''__'' ''borough_Bronx''"
proof -
  have h1: "distinct example_features" by (simp add: example_features_def)
  have h2: "\<forall>f\<in>set example_features. prefix ''cat__'' f \<longrightarrow> length (py_split ''__'' f) = 2"
    by (simp add: example_features_def py_split_def split_from.simps)
  have ft: "float_table ''40.85'' \<noteq> None" by (simp add: float_table_def)
  have h3: "\<forall>f\<in>set example_features. prefix ''num__'' f \<longrightarrow>
         (\<forall>s. map_of example_input (py_split ''__'' f ! 1) = Some s \<longrightarrow> float_table s \<noteq> None)"
    using ft by (simp add: example_features_def example_input_def py_split_def split_from.simps)
  have e: "create_aligned_input float_table example_input example_features
     = Inr [(''num__latitude'', 40.85), (''num__crash_rate'', 0), (''cat__borough_Bronx'', 1),
            (''cat__borough_Staten Island'', 0), (''cat__time_of_day_Morning'', 0),
            (''cat__month_3'', 0)]"
    by (simp add: create_aligned_input_def example_input_def example_features_def
        float_table_def py_split_def split_from.simps rsplit1_head_def rsplit_last_def at_set_def)
  have b: "map_of example_input ''borough'' = Some ''Bronx''" "\<not> has_sep ''__'' ''borough_Bronx''"
    by (simp_all add: example_input_def)
  from create_aligned_input_columns [OF h1 h2 h3] obtain aligned where
    r: "create_aligned_input float_table example_input example_features = Inr aligned"
    and n: "map fst aligned = example_features" by blast
  from r e h1 b show ?thesis by simp
qed

text \<open>
  The specification's sentence does not hold in its last part. A row with latitude 40.85 and borough Bronx is
  aligned to the two features of a small model; its aligned output, converted to strings
  again, is aligned to the all-zero vector, not to itself.
\<close>

theorem alignment_idempotence_counterexample:
  "create_aligned_input float_table [(''latitude'', ''40.85''), (''borough'', ''Bronx'')]
       [''num__latitude'', ''cat__borough_Bronx'']
     = Inr [(''num__latitude'', 40.85), (''cat__borough_Bronx'', 1)]
   \<and> astype_str [(''num__latitude'', 40.85), (''cat__borough_Bronx'', 1)]
     = [(''num__latitude'', ''40.85''), (''cat__borough_Bronx'', ''1.0'')]
   \<and> create_aligned_input float_table
       [(''num__latitude'', ''40.85''), (''cat__borough_Bronx'', ''1.0'')]
       [''num__latitude'', ''cat__borough_Bronx'']
     = Inr [(''num__latitude'', 0), (''cat__borough_Bronx'', 0)]
   \<and> [(''num__latitude'', 40.85 :: real), (''cat__borough_Bronx'', 1)]
     \<noteq> [(''num__latitude'', 0), (''cat__borough_Bronx'', 0)]"
proof -
  have a: "create_aligned_input float_table [(''latitude'', ''40.85''), (''borough'', ''Bronx'')]
       [''num__latitude'', ''cat__borough_Bronx'']
     = Inr [(''num__latitude'', 40.85), (''cat__borough_Bronx'', 1)]"
    by (simp add: create_aligned_input_def float_table_def py_split_def split_from.simps
        rsplit1_head_def rsplit_last_def at_set_def)
  have b: "astype_str [(''num__latitude'', 40.85), (''cat__borough_Bronx'', 1)]
     = [(''num__latitude'', ''40.85''), (''cat__borough_Bronx'', ''1.0'')]"
  proof -
    have "float_str 40.85 = ''40.85''" "float_str 1 = ''1.0''"
      by (simp_all add: float_str_def float64_of_def float64_str_def frac_digits.simps
          nat_str.simps digit_char_def Let_def)
    then show ?thesis by (simp add: astype_str_def)
  qed
  have d: "[(''num__latitude'', 40.85 :: real), (''cat__borough_Bronx'', 1)]
     \<noteq> [(''num__latitude'', 0), (''cat__borough_Bronx'', 0)]"
    by simp
  have c: "create_aligned_input float_table
       [(''num__latitude'', ''40.85''), (''cat__borough_Bronx'', ''1.0'')]
       [''num__latitude'', ''cat__borough_Bronx'']
     = Inr [(''num__latitude'', 0), (''cat__borough_Bronx'', 0)]"
    by (simp add: create_aligned_input_def float_table_def py_split_def split_from.simps
        rsplit1_head_def rsplit_last_def at_set_def)
  show ?thesis by (intro conjI a b c d)
qed

end
